theory Spec2Isabelle
  imports Complex_Main "HOL-Library.Word"
begin

section \<open>Machine integers, errors and containers\<close>

text \<open>
  The three navigation indices, the frame numbers of a tracklet and the frame count of a
  data set are C++ \<open>int\<close>: 32-bit words, compared as signed values (\<open>\<le>s\<close>, \<open><s\<close>), with
  \<open>+\<close> and \<open>-\<close> wrapping.  A \<open>std::vector\<close> is a list; its \<open>size()\<close> is the unsigned 64-bit
  \<open>size_t\<close>, written as a natural number with the wrap-around of \<open>size() - 1\<close> spelled out.
  Overflow of \<open>int\<close> arithmetic, undefined in C++, wraps here; where a theorem below
  speaks of \<open>frame_index - first_frame\<close>, its hypotheses exclude the overflow.
  Counters of loops over a vector (\<open>for (int i = 0; i < v.size(); ++i)\<close>) are natural
  numbers.  Coordinates, extents and angles (\<open>float\<close>, \<open>double\<close>) are real numbers: rounding
  is not part of the model.
\<close>

type_synonym cint = "32 word"

datatype vector_name =
  AvailableDatasets | AvailableTracklets | CroppedTrackletPointClouds | Poses

datatype error =
  out_of_range vector_name
  | FrameReadError
  | UndefinedBehaviour

text \<open>The conversion of an \<open>int\<close> to \<open>size_t\<close> that C++ applies when the two are compared
  or when an \<open>int\<close> is passed as a vector position: a negative value becomes a huge one.\<close>

definition size_t_of_int :: "cint \<Rightarrow> nat" where
  "size_t_of_int i = (if 0 \<le> sint i then nat (sint i) else nat (2 ^ 64 + sint i))"

text \<open>\<open>v.size() - 1\<close>, computed in \<open>size_t\<close>, and its conversion back to \<open>int\<close>
  (the low 32 bits).\<close>

definition size_minus_1 :: "nat \<Rightarrow> nat" where
  "size_minus_1 n = (n + 2 ^ 64 - 1) mod 2 ^ 64"

definition int_of_size_t :: "nat \<Rightarrow> cint" where
  "int_of_size_t n = word_of_nat n"

text \<open>\<open>v.at(i)\<close>: the position is a \<open>size_t\<close>; outside the vector it throws
  \<open>std::out_of_range\<close>.  The error value records which vector was read.\<close>

definition vector_at :: "vector_name \<Rightarrow> 'a list \<Rightarrow> nat \<Rightarrow> error + 'a" where
  "vector_at name v i = (if i < length v then Inr (v ! i) else Inl (out_of_range name))"

text \<open>\<open>"literal" + i\<close> with \<open>i\<close> an \<open>int\<close> is pointer arithmetic on the literal's
  characters: the \<open>std::string\<close> built from it is the literal without its first \<open>i\<close>
  characters, as long as the pointer stays on the literal or its terminating zero.\<close>

definition literal_plus :: "string \<Rightarrow> nat \<Rightarrow> error + string" where
  "literal_plus lit i = (if i \<le> length lit then Inr (drop i lit) else Inl UndefinedBehaviour)"

text \<open>Statements in sequence; an exception ends the sequence.\<close>

fun run_steps :: "('s \<Rightarrow> error + 's) list \<Rightarrow> 's \<Rightarrow> error + 's" where
  "run_steps [] s = Inr s"
| "run_steps (step # steps) s =
     (case step s of Inl e \<Rightarrow> Inl e | Inr s' \<Rightarrow> run_steps steps s')"

definition pure_step :: "('s \<Rightarrow> 's) \<Rightarrow> 's \<Rightarrow> error + 's" where
  "pure_step f s = Inr (f s)"

definition when_step :: "('s \<Rightarrow> bool) \<Rightarrow> ('s \<Rightarrow> error + 's) \<Rightarrow> 's \<Rightarrow> error + 's" where
  "when_step c step s = (if c s then step s else Inr s)"

text \<open>\<open>for (int i = first; i < n; ++i) body(i)\<close>, where the body leaves \<open>n\<close> alone.\<close>

function for_loop :: "nat \<Rightarrow> nat \<Rightarrow> (nat \<Rightarrow> 's \<Rightarrow> error + 's) \<Rightarrow> 's \<Rightarrow> error + 's" where
  "for_loop i n body s =
     (if i < n
      then (case body i s of Inl e \<Rightarrow> Inl e | Inr s' \<Rightarrow> for_loop (i + 1) n body s')
      else Inr s)"
  by pat_completeness auto
termination
  by (relation "measure (\<lambda>(i, n, body, s). n - i)") auto

declare for_loop.simps [simp del]

text \<open>Decimal output of \<open>operator<<\<close> for integers.\<close>

definition digit_char :: "nat \<Rightarrow> char" where
  "digit_char d = ''0123456789'' ! d"

fun string_of_nat :: "nat \<Rightarrow> string" where
  "string_of_nat n =
     (if 10 \<le> n then string_of_nat (n div 10) @ [digit_char (n mod 10)] else [digit_char n])"

declare string_of_nat.simps [simp del]

definition string_of_int :: "int \<Rightarrow> string" where
  "string_of_int i = (if i < 0 then CHR ''-'' # string_of_nat (nat (- i)) else string_of_nat (nat i))"

definition endl :: string where
  "endl = [CHR 0x0A]"

section \<open>Geometry (Eigen and PCL)\<close>

type_synonym Vector3f = "real \<times> real \<times> real"

datatype Quaternionf = Quaternionf (qw: real) (qx: real) (qy: real) (qz: real)

datatype KittiPoint = KittiPoint (pt_x: real) (pt_y: real) (pt_z: real) (pt_intensity: real)

type_synonym KittiPointCloud = "KittiPoint list"

definition UnitZ :: Vector3f where
  "UnitZ = (0, 0, 1)"

definition Zero :: Vector3f where
  "Zero = (0, 0, 0)"

definition Identity :: Quaternionf where
  "Identity = Quaternionf 1 0 0 0"

text \<open>\<open>Eigen::Quaternionf(Eigen::AngleAxisf(angle, axis))\<close>.\<close>

fun AngleAxisf :: "real \<Rightarrow> Vector3f \<Rightarrow> Quaternionf" where
  "AngleAxisf angle (ax, ay, az) =
     Quaternionf (cos (angle / 2)) (sin (angle / 2) * ax) (sin (angle / 2) * ay)
       (sin (angle / 2) * az)"

text \<open>The rotation matrix of a quaternion (\<open>toRotationMatrix\<close>) applied to a vector.\<close>

fun rotateVector :: "Quaternionf \<Rightarrow> Vector3f \<Rightarrow> Vector3f" where
  "rotateVector (Quaternionf w x y z) (a, b, c) =
     ((1 - (2 * y * y + 2 * z * z)) * a + (2 * y * x - 2 * z * w) * b + (2 * z * x + 2 * y * w) * c,
      (2 * y * x + 2 * z * w) * a + (1 - (2 * x * x + 2 * z * z)) * b + (2 * z * y - 2 * x * w) * c,
      (2 * z * x - 2 * y * w) * a + (2 * z * y + 2 * x * w) * b + (1 - (2 * x * x + 2 * y * y)) * c)"

text \<open>\<open>pcl::transformPointCloud(in, out, offset, rotation)\<close>: every point \<open>p\<close> becomes
  \<open>rotation * p + offset\<close>; the intensity is copied.\<close>

fun transformPoint :: "Vector3f \<Rightarrow> Quaternionf \<Rightarrow> KittiPoint \<Rightarrow> KittiPoint" where
  "transformPoint (ox, oy, oz) q (KittiPoint x y z i) =
     (case rotateVector q (x, y, z) of (a, b, c) \<Rightarrow> KittiPoint (a + ox) (b + oy) (c + oz) i)"

definition transformPointCloud :: "KittiPointCloud \<Rightarrow> Vector3f \<Rightarrow> Quaternionf \<Rightarrow> KittiPointCloud" where
  "transformPointCloud cloud_in offset rotation = map (transformPoint offset rotation) cloud_in"

section \<open>Tracklets and data sets\<close>

text \<open>A pose of \<open>Tracklets::tPose\<close> (translation and yaw; the fields the viewer reads) and
  a tracklet of \<open>KittiTracklet\<close>; the extents \<open>h\<close>, \<open>w\<close>, \<open>l\<close> carry a prefix.\<close>

record tPose =
  tx :: real
  ty :: real
  tz :: real
  rz :: real

record KittiTracklet =
  objectType :: string
  tracklet_h :: real
  tracklet_w :: real
  tracklet_l :: real
  first_frame :: cint
  poses :: "tPose list"

text \<open>Modelled from the spec: \<open>lastFrame()\<close> is declared in kitti-devkit-raw/tracklets.h,
  which is not among the source files.  Section 3: a tracklet's
  \<open>lastFrame = first_frame + poses.size() - 1\<close>, returned as an \<open>int\<close>.\<close>

definition lastFrame :: "KittiTracklet \<Rightarrow> cint" where
  "lastFrame t = first_frame t + int_of_size_t (length (poses t)) - 1"

record KittiDataset =
  pointClouds :: "KittiPointCloud list"
  tracklets :: "KittiTracklet list"
  imageFileName :: "cint \<Rightarrow> string"

text \<open>Modelled from the spec: the class \<open>KittiDataset\<close> (KittiDataset.h) is not among the
  source files.  Section 6: \<open>frameCount()\<close> is an \<open>int\<close>; \<open>pointCloud(frame_index)\<close> fails
  with \<open>FrameReadError\<close> on an out-of-range frame; \<open>imagePath(frame_index)\<close> is a path;
  \<open>tracklets()\<close> is an ordered sequence, read by position.\<close>

definition getNumberOfFrames :: "KittiDataset \<Rightarrow> cint" where
  "getNumberOfFrames d = int_of_size_t (length (pointClouds d))"

definition getPointCloud :: "KittiDataset \<Rightarrow> cint \<Rightarrow> error + KittiPointCloud" where
  "getPointCloud d frameId =
     (if 0 \<le>s frameId \<and> frameId <s getNumberOfFrames d
      then Inr (pointClouds d ! size_t_of_int frameId)
      else Inl FrameReadError)"

definition getImageFileName :: "KittiDataset \<Rightarrow> cint \<Rightarrow> string" where
  "getImageFileName d frameId = imageFileName d frameId"

definition numberOfTracklets :: "KittiTracklet list \<Rightarrow> nat" where
  "numberOfTracklets ts = length ts"

definition getTracklet :: "KittiTracklet list \<Rightarrow> nat \<Rightarrow> KittiTracklet" where
  "getTracklet ts tracklet_id = ts ! tracklet_id"

text \<open>Modelled from the spec: \<open>KittiDataset::getTrackletPointCloud\<close> is not among the
  source files.  Sections 4.1 and 4.3: the frame cloud cropped to the tracklet's world
  box at the frame, whose centre is \<open>(tx, ty, tz + h/2)\<close>, whose orientation is the
  rotation by \<open>rz\<close> about the vertical axis and whose extents are \<open>(l, w, h)\<close>; the pose is
  the one at \<open>frame_index - first_frame\<close>, and there is none outside the tracklet's frames.\<close>

definition insideWorldBox :: "KittiTracklet \<Rightarrow> tPose \<Rightarrow> KittiPoint \<Rightarrow> bool" where
  "insideWorldBox t p pt =
     (case rotateVector (AngleAxisf (- rz p) UnitZ)
             (pt_x pt - tx p, pt_y pt - ty p, pt_z pt - (tz p + tracklet_h t / 2)) of
        (a, b, c) \<Rightarrow>
          \<bar>a\<bar> \<le> tracklet_l t / 2 \<and> \<bar>b\<bar> \<le> tracklet_w t / 2 \<and> \<bar>c\<bar> \<le> tracklet_h t / 2)"

definition getTrackletPointCloud ::
    "KittiPointCloud \<Rightarrow> KittiTracklet \<Rightarrow> cint \<Rightarrow> error + KittiPointCloud" where
  "getTrackletPointCloud cloud tracklet frameId =
     (case vector_at Poses (poses tracklet) (size_t_of_int (frameId - first_frame tracklet)) of
        Inl e \<Rightarrow> Inl e
      | Inr tpose \<Rightarrow> Inr (filter (insideWorldBox tracklet tpose) cloud))"

text \<open>What the viewer takes from \<open>KittiConfig\<close> and \<open>KittiDataset\<close> as given: the numbers
  of the available data sets, \<open>getDatasetNumber\<close>, the data set that
  \<open>new KittiDataset(number)\<close> opens, and the colour table \<open>getColor\<close>.\<close>

record environment =
  availableDatasets :: "cint list"
  getDatasetNumber :: "cint \<Rightarrow> cint"
  openDataset :: "cint \<Rightarrow> KittiDataset"
  getColor :: "string \<Rightarrow> int \<times> int \<times> int"

section \<open>The render scene\<close>

text \<open>Modelled from the spec: the scene renderer is PCL's visualizer, not part of the
  source files.  Section 6: \<open>addOrReplace(id, geometry, style)\<close> and \<open>remove(id)\<close>, which
  does nothing when the identifier is absent.\<close>

datatype actor =
  CloudActor KittiPointCloud "int \<times> int \<times> int"
  | CubeActor Vector3f Quaternionf real real real

type_synonym PCLVisualizer = "string \<Rightarrow> actor option"

definition addPointCloud ::
    "KittiPointCloud \<Rightarrow> int \<times> int \<times> int \<Rightarrow> string \<Rightarrow> PCLVisualizer \<Rightarrow> PCLVisualizer" where
  "addPointCloud cloud colour viewer_id scene = scene(viewer_id \<mapsto> CloudActor cloud colour)"

definition addCube ::
    "Vector3f \<Rightarrow> Quaternionf \<Rightarrow> real \<Rightarrow> real \<Rightarrow> real \<Rightarrow> string \<Rightarrow> PCLVisualizer \<Rightarrow> PCLVisualizer" where
  "addCube translation rotation width height depth viewer_id scene =
     scene(viewer_id \<mapsto> CubeActor translation rotation width height depth)"

definition removePointCloud :: "string \<Rightarrow> PCLVisualizer \<Rightarrow> PCLVisualizer" where
  "removePointCloud viewer_id scene = scene(viewer_id := None)"

definition removeShape :: "string \<Rightarrow> PCLVisualizer \<Rightarrow> PCLVisualizer" where
  "removeShape viewer_id scene = scene(viewer_id := None)"

section \<open>The viewer's state\<close>

text \<open>The members of \<open>KittiVisualizerQt\<close> and, of the widgets behind \<open>ui\<close>, the three
  labels and the image widget's file.  The sliders are the toolkit's: the calls that set
  their range and value write no member and are left out, as are the requests to redraw,
  the console output and the camera.  The scene holds the objects the viewer adds under
  an identifier.\<close>

record KittiVisualizerQt =
  dataset_index :: cint
  frame_index :: cint
  tracklet_index :: cint
  dataset :: KittiDataset
  pointCloud :: KittiPointCloud
  availableTracklets :: "KittiTracklet list"
  croppedTrackletPointClouds :: "KittiPointCloud list"
  pointCloudVisible :: bool
  trackletBoundingBoxesVisible :: bool
  trackletPointsVisible :: bool
  trackletInCenterVisible :: bool
  pclVisualizer :: PCLVisualizer
  label_dataSet :: string
  label_frame :: string
  label_tracklet :: string
  imageWidget :: string

section \<open>Loading, showing and hiding\<close>

definition loadPointCloud :: "KittiVisualizerQt \<Rightarrow> error + KittiVisualizerQt" where
  "loadPointCloud s =
     (case getPointCloud (dataset s) (frame_index s) of
        Inl e \<Rightarrow> Inl e
      | Inr cloud \<Rightarrow> Inr (s\<lparr>pointCloud := cloud\<rparr>))"

definition loadImageFile :: "KittiVisualizerQt \<Rightarrow> KittiVisualizerQt" where
  "loadImageFile s = s\<lparr>imageWidget := getImageFileName (dataset s) (frame_index s)\<rparr>"

definition showPointCloud :: "KittiVisualizerQt \<Rightarrow> KittiVisualizerQt" where
  "showPointCloud s =
     s\<lparr>pclVisualizer := addPointCloud (pointCloud s) (255, 255, 255) ''point_cloud'' (pclVisualizer s)\<rparr>"

definition hidePointCloud :: "KittiVisualizerQt \<Rightarrow> KittiVisualizerQt" where
  "hidePointCloud s = s\<lparr>pclVisualizer := removePointCloud ''point_cloud'' (pclVisualizer s)\<rparr>"

text \<open>\<open>loadAvailableTracklets\<close>: one pass over the data set's tracklets; a tracklet with
  \<open>first_frame <= frame_index && lastFrame() >= frame_index\<close> is pushed to the back of
  \<open>availableTracklets\<close>.\<close>

definition loadAvailableTracklets_body :: "nat \<Rightarrow> KittiVisualizerQt \<Rightarrow> error + KittiVisualizerQt" where
  "loadAvailableTracklets_body tracklet_id s =
     (let tracklet = getTracklet (tracklets (dataset s)) tracklet_id
      in if first_frame tracklet \<le>s frame_index s \<and> frame_index s \<le>s lastFrame tracklet
         then Inr (s\<lparr>availableTracklets := availableTracklets s @ [tracklet]\<rparr>)
         else Inr s)"

definition loadAvailableTracklets :: "KittiVisualizerQt \<Rightarrow> error + KittiVisualizerQt" where
  "loadAvailableTracklets s =
     for_loop 0 (numberOfTracklets (tracklets (dataset s))) loadAvailableTracklets_body s"

definition clearAvailableTracklets :: "KittiVisualizerQt \<Rightarrow> KittiVisualizerQt" where
  "clearAvailableTracklets s = s\<lparr>availableTracklets := []\<rparr>"

definition showTrackletBoxes_body :: "nat \<Rightarrow> KittiVisualizerQt \<Rightarrow> error + KittiVisualizerQt" where
  "showTrackletBoxes_body i s =
     (case vector_at AvailableTracklets (availableTracklets s) i of
        Inl e \<Rightarrow> Inl e
      | Inr tracklet \<Rightarrow>
         (case vector_at Poses (poses tracklet)
                 (size_t_of_int (frame_index s - first_frame tracklet)) of
            Inl e \<Rightarrow> Inl e
          | Inr tpose \<Rightarrow>
             (case literal_plus ''tracklet_box_'' i of
                Inl e \<Rightarrow> Inl e
              | Inr viewer_id \<Rightarrow>
                 Inr (s\<lparr>pclVisualizer :=
                        addCube (tx tpose, ty tpose, tz tpose + tracklet_h tracklet / 2)
                          (AngleAxisf (rz tpose) UnitZ)
                          (tracklet_l tracklet) (tracklet_w tracklet) (tracklet_h tracklet)
                          viewer_id (pclVisualizer s)\<rparr>))))"

definition showTrackletBoxes :: "KittiVisualizerQt \<Rightarrow> error + KittiVisualizerQt" where
  "showTrackletBoxes s = for_loop 0 (length (availableTracklets s)) showTrackletBoxes_body s"

definition hideTrackletBoxes_body :: "nat \<Rightarrow> KittiVisualizerQt \<Rightarrow> error + KittiVisualizerQt" where
  "hideTrackletBoxes_body i s =
     (case literal_plus ''tracklet_box_'' i of
        Inl e \<Rightarrow> Inl e
      | Inr viewer_id \<Rightarrow> Inr (s\<lparr>pclVisualizer := removeShape viewer_id (pclVisualizer s)\<rparr>))"

definition hideTrackletBoxes :: "KittiVisualizerQt \<Rightarrow> error + KittiVisualizerQt" where
  "hideTrackletBoxes s = for_loop 0 (length (availableTracklets s)) hideTrackletBoxes_body s"

text \<open>\<open>loadTrackletPoints\<close>: the crop of the frame cloud for every available tracklet,
  lifted by the display offset \<open>(0, 0, 6)\<close>, pushed to the back of
  \<open>croppedTrackletPointClouds\<close>.\<close>

definition loadTrackletPoints_body :: "nat \<Rightarrow> KittiVisualizerQt \<Rightarrow> error + KittiVisualizerQt" where
  "loadTrackletPoints_body i s =
     (case vector_at AvailableTracklets (availableTracklets s) i of
        Inl e \<Rightarrow> Inl e
      | Inr tracklet \<Rightarrow>
         (case getTrackletPointCloud (pointCloud s) tracklet (frame_index s) of
            Inl e \<Rightarrow> Inl e
          | Inr trackletPointCloud \<Rightarrow>
             Inr (s\<lparr>croppedTrackletPointClouds :=
                    croppedTrackletPointClouds s
                    @ [transformPointCloud trackletPointCloud (0, 0, 6) Identity]\<rparr>)))"

definition loadTrackletPoints :: "KittiVisualizerQt \<Rightarrow> error + KittiVisualizerQt" where
  "loadTrackletPoints s = for_loop 0 (length (availableTracklets s)) loadTrackletPoints_body s"

definition getTrackletColor :: "environment \<Rightarrow> KittiTracklet \<Rightarrow> int \<times> int \<times> int" where
  "getTrackletColor env tracklet = getColor env (objectType tracklet)"

definition showTrackletPoints_body ::
    "environment \<Rightarrow> nat \<Rightarrow> KittiVisualizerQt \<Rightarrow> error + KittiVisualizerQt" where
  "showTrackletPoints_body env i s =
     (case vector_at AvailableTracklets (availableTracklets s) i of
        Inl e \<Rightarrow> Inl e
      | Inr tracklet \<Rightarrow>
         (case vector_at CroppedTrackletPointClouds (croppedTrackletPointClouds s) i of
            Inl e \<Rightarrow> Inl e
          | Inr cloud \<Rightarrow>
             (case literal_plus ''cropped_tracklet_'' i of
                Inl e \<Rightarrow> Inl e
              | Inr viewer_id \<Rightarrow>
                 Inr (s\<lparr>pclVisualizer :=
                        addPointCloud cloud (getTrackletColor env tracklet) viewer_id
                          (pclVisualizer s)\<rparr>))))"

definition showTrackletPoints :: "environment \<Rightarrow> KittiVisualizerQt \<Rightarrow> error + KittiVisualizerQt" where
  "showTrackletPoints env s =
     for_loop 0 (length (availableTracklets s)) (showTrackletPoints_body env) s"

definition hideTrackletPoints_body :: "nat \<Rightarrow> KittiVisualizerQt \<Rightarrow> error + KittiVisualizerQt" where
  "hideTrackletPoints_body i s =
     (case literal_plus ''cropped_tracklet_'' i of
        Inl e \<Rightarrow> Inl e
      | Inr viewer_id \<Rightarrow> Inr (s\<lparr>pclVisualizer := removeShape viewer_id (pclVisualizer s)\<rparr>))"

definition hideTrackletPoints :: "KittiVisualizerQt \<Rightarrow> error + KittiVisualizerQt" where
  "hideTrackletPoints s = for_loop 0 (length (availableTracklets s)) hideTrackletPoints_body s"

definition clearTrackletPoints :: "KittiVisualizerQt \<Rightarrow> KittiVisualizerQt" where
  "clearTrackletPoints s = s\<lparr>croppedTrackletPointClouds := []\<rparr>"

text \<open>\<open>showTrackletInCenter\<close>: the selected tracklet's crop goes through two calls of
  \<open>transformPointCloud\<close>, the first with the offset and the identity rotation, the second
  with the zero offset and the rotation.\<close>

definition transformOffset :: "KittiTracklet \<Rightarrow> tPose \<Rightarrow> Vector3f" where
  "transformOffset tracklet tpose =
     (- tx tpose, - ty tpose, - (tz tpose + tracklet_h tracklet / 2))"

definition transformRotation :: "tPose \<Rightarrow> Quaternionf" where
  "transformRotation tpose = AngleAxisf (- rz tpose) UnitZ"

definition centeredCloud :: "KittiPointCloud \<Rightarrow> KittiTracklet \<Rightarrow> tPose \<Rightarrow> KittiPointCloud" where
  "centeredCloud cloudOut tracklet tpose =
     (let cloudOutTransformed = transformPointCloud cloudOut (transformOffset tracklet tpose) Identity
      in transformPointCloud cloudOutTransformed Zero (transformRotation tpose))"

definition showTrackletInCenter :: "KittiVisualizerQt \<Rightarrow> error + KittiVisualizerQt" where
  "showTrackletInCenter s =
     (if length (availableTracklets s) \<noteq> 0
      then
        (case vector_at AvailableTracklets (availableTracklets s)
                (size_t_of_int (tracklet_index s)) of
           Inl e \<Rightarrow> Inl e
         | Inr tracklet \<Rightarrow>
            (case getTrackletPointCloud (pointCloud s) tracklet (frame_index s) of
               Inl e \<Rightarrow> Inl e
             | Inr cloudOut \<Rightarrow>
                (case vector_at Poses (poses tracklet)
                        (size_t_of_int (frame_index s - first_frame tracklet)) of
                   Inl e \<Rightarrow> Inl e
                 | Inr tpose \<Rightarrow>
                    Inr (s\<lparr>pclVisualizer :=
                           addPointCloud (centeredCloud cloudOut tracklet tpose) (0, 255, 0)
                             ''centered_tracklet'' (pclVisualizer s)\<rparr>))))
      else Inr s)"

definition hideTrackletInCenter :: "KittiVisualizerQt \<Rightarrow> KittiVisualizerQt" where
  "hideTrackletInCenter s =
     (if length (availableTracklets s) \<noteq> 0
      then s\<lparr>pclVisualizer := removeShape ''centered_tracklet'' (pclVisualizer s)\<rparr>
      else s)"

section \<open>Labels\<close>

definition updateDatasetLabel :: "environment \<Rightarrow> KittiVisualizerQt \<Rightarrow> KittiVisualizerQt" where
  "updateDatasetLabel env s =
     s\<lparr>label_dataSet :=
         ''Data set: '' @ string_of_int (sint (dataset_index s + 1)) @ '' of ''
         @ string_of_nat (length (availableDatasets env))
         @ '' ['' @ string_of_int (sint (getDatasetNumber env (dataset_index s))) @ '']''
         @ endl\<rparr>"

definition updateFrameLabel :: "KittiVisualizerQt \<Rightarrow> KittiVisualizerQt" where
  "updateFrameLabel s =
     s\<lparr>label_frame :=
         ''Frame: '' @ string_of_int (sint (frame_index s + 1)) @ '' of ''
         @ string_of_int (sint (getNumberOfFrames (dataset s))) @ endl\<rparr>"

definition updateTrackletLabel :: "KittiVisualizerQt \<Rightarrow> error + KittiVisualizerQt" where
  "updateTrackletLabel s =
     (if length (availableTracklets s) \<noteq> 0
      then
        (case vector_at AvailableTracklets (availableTracklets s)
                (size_t_of_int (tracklet_index s)) of
           Inl e \<Rightarrow> Inl e
         | Inr tracklet \<Rightarrow>
            (case vector_at CroppedTrackletPointClouds (croppedTrackletPointClouds s)
                    (size_t_of_int (tracklet_index s)) of
               Inl e \<Rightarrow> Inl e
             | Inr cloud \<Rightarrow>
                Inr (s\<lparr>label_tracklet :=
                       ''Tracklet: '' @ string_of_int (sint (tracklet_index s + 1)) @ '' of ''
                       @ string_of_nat (length (availableTracklets s))
                       @ '' ('' @ [CHR 0x22] @ objectType tracklet @ [CHR 0x22] @ '', ''
                       @ string_of_nat (length cloud) @ '' points)'' @ endl\<rparr>)))
      else Inr (s\<lparr>label_tracklet := ''Tracklet: '' @ ''0 of 0'' @ endl\<rparr>))"

section \<open>The three navigation requests\<close>

text \<open>The clamp that the handlers write for an index into a vector,
  \<open>if (index >= v.size()) index = v.size() - 1; if (index < 0) index = 0;\<close>.
  In the first comparison the \<open>int\<close> is converted to \<open>size_t\<close>, in the first assignment
  the \<open>size_t\<close> is converted to \<open>int\<close>; the second comparison is between \<open>int\<close>s.\<close>

definition clamp_to_size :: "cint \<Rightarrow> nat \<Rightarrow> cint" where
  "clamp_to_size index n =
     (let index1 = (if n \<le> size_t_of_int index then int_of_size_t (size_minus_1 n) else index)
      in if index1 <s 0 then 0 else index1)"

definition clampDatasetIndex :: "environment \<Rightarrow> KittiVisualizerQt \<Rightarrow> KittiVisualizerQt" where
  "clampDatasetIndex env s =
     s\<lparr>dataset_index := clamp_to_size (dataset_index s) (length (availableDatasets env))\<rparr>"

definition clampTrackletIndex :: "KittiVisualizerQt \<Rightarrow> KittiVisualizerQt" where
  "clampTrackletIndex s =
     s\<lparr>tracklet_index := clamp_to_size (tracklet_index s) (length (availableTracklets s))\<rparr>"

text \<open>\<open>delete dataset; dataset = new KittiDataset(KittiConfig::availableDatasets.at(dataset_index))\<close>.\<close>

definition newDataset :: "environment \<Rightarrow> KittiVisualizerQt \<Rightarrow> error + KittiVisualizerQt" where
  "newDataset env s =
     (case vector_at AvailableDatasets (availableDatasets env) (size_t_of_int (dataset_index s)) of
        Inl e \<Rightarrow> Inl e
      | Inr number \<Rightarrow> Inr (s\<lparr>dataset := openDataset env number\<rparr>))"

text \<open>The frame index is compared with \<open>getNumberOfFrames()\<close>, an \<open>int\<close>.\<close>

definition clampFrameIndexAbove :: "KittiVisualizerQt \<Rightarrow> KittiVisualizerQt" where
  "clampFrameIndexAbove s =
     (if getNumberOfFrames (dataset s) \<le>s frame_index s
      then s\<lparr>frame_index := getNumberOfFrames (dataset s) - 1\<rparr>
      else s)"

definition clampFrameIndexBelow :: "KittiVisualizerQt \<Rightarrow> KittiVisualizerQt" where
  "clampFrameIndexBelow s = (if frame_index s <s 0 then s\<lparr>frame_index := 0\<rparr> else s)"

text \<open>The statements that open \<open>newDatasetRequested\<close> and \<open>newFrameRequested\<close> alike:
  hide what is shown and clear the two derived sequences.\<close>

definition hide_and_clear :: "(KittiVisualizerQt \<Rightarrow> error + KittiVisualizerQt) list" where
  "hide_and_clear =
     [when_step trackletInCenterVisible (pure_step hideTrackletInCenter),
      when_step trackletPointsVisible hideTrackletPoints,
      pure_step clearTrackletPoints,
      when_step trackletBoundingBoxesVisible hideTrackletBoxes,
      pure_step clearAvailableTracklets,
      when_step pointCloudVisible (pure_step hidePointCloud)]"

text \<open>The statements that the constructor and both handlers run alike once the indices
  are set: load the frame, the tracklets and their points, and show what is visible.\<close>

definition load_and_show :: "environment \<Rightarrow> (KittiVisualizerQt \<Rightarrow> error + KittiVisualizerQt) list" where
  "load_and_show env =
     [loadPointCloud,
      when_step pointCloudVisible (pure_step showPointCloud),
      pure_step loadImageFile,
      loadAvailableTracklets,
      when_step trackletBoundingBoxesVisible showTrackletBoxes,
      loadTrackletPoints,
      when_step trackletPointsVisible (showTrackletPoints env)]"

definition newDatasetRequested ::
    "environment \<Rightarrow> cint \<Rightarrow> KittiVisualizerQt \<Rightarrow> error + KittiVisualizerQt" where
  "newDatasetRequested env value s =
     (if dataset_index s = value then Inr s
      else run_steps
        (hide_and_clear
         @ [pure_step (\<lambda>s. s\<lparr>dataset_index := value\<rparr>),
            pure_step (clampDatasetIndex env),
            newDataset env,
            pure_step clampFrameIndexAbove]
         @ load_and_show env
         @ [pure_step clampTrackletIndex,
            when_step trackletInCenterVisible showTrackletInCenter,
            pure_step (updateDatasetLabel env),
            pure_step updateFrameLabel,
            updateTrackletLabel]) s)"

definition newFrameRequested ::
    "environment \<Rightarrow> cint \<Rightarrow> KittiVisualizerQt \<Rightarrow> error + KittiVisualizerQt" where
  "newFrameRequested env value s =
     (if frame_index s = value then Inr s
      else run_steps
        (hide_and_clear
         @ [pure_step (\<lambda>s. s\<lparr>frame_index := value\<rparr>),
            pure_step clampFrameIndexAbove,
            pure_step clampFrameIndexBelow]
         @ load_and_show env
         @ [pure_step clampTrackletIndex,
            when_step trackletInCenterVisible showTrackletInCenter,
            pure_step updateFrameLabel,
            updateTrackletLabel]) s)"

definition newTrackletRequested :: "cint \<Rightarrow> KittiVisualizerQt \<Rightarrow> error + KittiVisualizerQt" where
  "newTrackletRequested value s =
     (if tracklet_index s = value then Inr s
      else run_steps
        [when_step trackletInCenterVisible (pure_step hideTrackletInCenter),
         pure_step (\<lambda>s. s\<lparr>tracklet_index := value\<rparr>),
         pure_step clampTrackletIndex,
         when_step trackletInCenterVisible showTrackletInCenter,
         updateTrackletLabel] s)"

definition loadNextFrame :: "environment \<Rightarrow> KittiVisualizerQt \<Rightarrow> error + KittiVisualizerQt" where
  "loadNextFrame env s = newFrameRequested env (frame_index s + 1) s"

definition loadPreviousFrame :: "environment \<Rightarrow> KittiVisualizerQt \<Rightarrow> error + KittiVisualizerQt" where
  "loadPreviousFrame env s = newFrameRequested env (frame_index s - 1) s"

definition keyboardEventOccurred ::
    "environment \<Rightarrow> nat \<Rightarrow> bool \<Rightarrow> string \<Rightarrow> KittiVisualizerQt \<Rightarrow> error + KittiVisualizerQt" where
  "keyboardEventOccurred env keyCode keyDown keySym s =
     (if keyCode = 0 \<and> keyDown
      then (if keySym = ''Left'' then loadPreviousFrame env s
            else if keySym = ''Right'' then loadNextFrame env s
            else Inr s)
      else Inr s)"

text \<open>\<open>setFrameNumber\<close> stores a frame index and loads nothing.  No signal is
  connected to it and nothing in the source calls it.\<close>

definition setFrameNumber :: "cint \<Rightarrow> KittiVisualizerQt \<Rightarrow> KittiVisualizerQt" where
  "setFrameNumber frameNumber s = s\<lparr>frame_index := frameNumber\<rparr>"

section \<open>The four layer toggles\<close>

definition showFramePointCloudToggled :: "bool \<Rightarrow> KittiVisualizerQt \<Rightarrow> error + KittiVisualizerQt" where
  "showFramePointCloudToggled value s =
     (let s1 = s\<lparr>pointCloudVisible := value\<rparr>
      in if pointCloudVisible s1 then Inr (showPointCloud s1) else Inr (hidePointCloud s1))"

definition showTrackletBoundingBoxesToggled ::
    "bool \<Rightarrow> KittiVisualizerQt \<Rightarrow> error + KittiVisualizerQt" where
  "showTrackletBoundingBoxesToggled value s =
     (let s1 = s\<lparr>trackletBoundingBoxesVisible := value\<rparr>
      in if trackletBoundingBoxesVisible s1 then showTrackletBoxes s1 else hideTrackletBoxes s1)"

definition showTrackletPointCloudsToggled ::
    "environment \<Rightarrow> bool \<Rightarrow> KittiVisualizerQt \<Rightarrow> error + KittiVisualizerQt" where
  "showTrackletPointCloudsToggled env value s =
     (let s1 = s\<lparr>trackletPointsVisible := value\<rparr>
      in if trackletPointsVisible s1 then showTrackletPoints env s1 else hideTrackletPoints s1)"

definition showTrackletInCenterToggled :: "bool \<Rightarrow> KittiVisualizerQt \<Rightarrow> error + KittiVisualizerQt" where
  "showTrackletInCenterToggled value s =
     (let s1 = s\<lparr>trackletInCenterVisible := value\<rparr>
      in if trackletInCenterVisible s1 then showTrackletInCenter s1 else Inr (hideTrackletInCenter s1))"

section \<open>Construction and the session\<close>

text \<open>The constructor, from the data set index that \<open>parseCommandLineOptions\<close> stored:
  frame and tracklet index are 0, the four layers are visible, the scene is empty.\<close>

definition KittiVisualizerQt_new :: "environment \<Rightarrow> cint \<Rightarrow> error + KittiVisualizerQt" where
  "KittiVisualizerQt_new env index =
     (case vector_at AvailableDatasets (availableDatasets env) (size_t_of_int index) of
        Inl e \<Rightarrow> Inl e
      | Inr number \<Rightarrow>
         run_steps
           (load_and_show env
            @ [when_step trackletInCenterVisible showTrackletInCenter,
               pure_step (updateDatasetLabel env),
               pure_step updateFrameLabel,
               updateTrackletLabel])
           \<lparr>dataset_index = index, frame_index = 0, tracklet_index = 0,
            dataset = openDataset env number, pointCloud = [],
            availableTracklets = [], croppedTrackletPointClouds = [],
            pointCloudVisible = True, trackletBoundingBoxesVisible = True,
            trackletPointsVisible = True, trackletInCenterVisible = True,
            pclVisualizer = Map.empty,
            label_dataSet = [], label_frame = [], label_tracklet = [], imageWidget = []\<rparr>)"

text \<open>The input events that the constructor connects to handlers (the three sliders, the
  four check boxes and the keyboard; the exit action and the camera presets touch no
  member modelled here), and the states a session can be in: the state after
  construction, and every state that a handler returns from such a state.  A handler that
  throws ends the session.\<close>

datatype event =
  DatasetSlider cint
  | FrameSlider cint
  | TrackletSlider cint
  | FramePointCloudCheckBox bool
  | TrackletBoundingBoxesCheckBox bool
  | TrackletPointCloudsCheckBox bool
  | TrackletInCenterCheckBox bool
  | KeyboardEvent nat bool string

fun handle :: "environment \<Rightarrow> event \<Rightarrow> KittiVisualizerQt \<Rightarrow> error + KittiVisualizerQt" where
  "handle env (DatasetSlider value) s = newDatasetRequested env value s"
| "handle env (FrameSlider value) s = newFrameRequested env value s"
| "handle env (TrackletSlider value) s = newTrackletRequested value s"
| "handle env (FramePointCloudCheckBox value) s = showFramePointCloudToggled value s"
| "handle env (TrackletBoundingBoxesCheckBox value) s = showTrackletBoundingBoxesToggled value s"
| "handle env (TrackletPointCloudsCheckBox value) s = showTrackletPointCloudsToggled env value s"
| "handle env (TrackletInCenterCheckBox value) s = showTrackletInCenterToggled value s"
| "handle env (KeyboardEvent keyCode keyDown keySym) s =
     keyboardEventOccurred env keyCode keyDown keySym s"

inductive reachable :: "environment \<Rightarrow> KittiVisualizerQt \<Rightarrow> bool" for env where
  constructed: "KittiVisualizerQt_new env index = Inr s \<Longrightarrow> reachable env s"
| handled: "reachable env s \<Longrightarrow> handle env ev s = Inr s' \<Longrightarrow> reachable env s'"

text \<open>Data the viewer is run on: the number of poses of a tracklet, of tracklets of a data
  set and of available data sets fits an \<open>int\<close>, a tracklet's first frame is not
  negative, and there is a data set.\<close>

definition wf_tracklet :: "KittiTracklet \<Rightarrow> bool" where
  "wf_tracklet t = (0 \<le>s first_frame t \<and> length (poses t) < 2 ^ 31)"

definition wf_dataset :: "KittiDataset \<Rightarrow> bool" where
  "wf_dataset d = (length (tracklets d) < 2 ^ 31 \<and> list_all wf_tracklet (tracklets d))"

definition wf_environment :: "environment \<Rightarrow> bool" where
  "wf_environment env =
     (availableDatasets env \<noteq> [] \<and> length (availableDatasets env) < 2 ^ 31
      \<and> list_all (\<lambda>number. wf_dataset (openDataset env number)) (availableDatasets env))"

section \<open>Assertions\<close>

text \<open>What a run of statements guarantees: from a state that satisfies \<open>P\<close>, it either
  returns a state that satisfies \<open>Q\<close> or throws an error that satisfies \<open>E\<close>.\<close>

definition triple ::
    "('s \<Rightarrow> bool) \<Rightarrow> ('s \<Rightarrow> error + 's) \<Rightarrow> ('s \<Rightarrow> bool) \<Rightarrow> (error \<Rightarrow> bool) \<Rightarrow> bool" where
  "triple P f Q E = (\<forall>s. P s \<longrightarrow> (case f s of Inl e \<Rightarrow> E e | Inr s' \<Rightarrow> Q s'))"

text \<open>The errors that are not a vector read out of range.\<close>

definition benign :: "error \<Rightarrow> bool" where
  "benign e = (e = FrameReadError \<or> e = UndefinedBehaviour)"

text \<open>The Active Tracklet Set of the current data set and frame is in place.\<close>

definition tracklets_loaded :: "KittiVisualizerQt \<Rightarrow> bool" where
  "tracklets_loaded s =
     (availableTracklets s =
        filter (\<lambda>t. first_frame t \<le>s frame_index s \<and> frame_index s \<le>s lastFrame t)
          (tracklets (dataset s)))"

text \<open>The tracklet index is a position of the Active Tracklet Set, or 0 (the index the
  code keeps for no selection) when the set is empty.\<close>

definition tracklet_index_valid :: "KittiVisualizerQt \<Rightarrow> bool" where
  "tracklet_index_valid s =
     (if availableTracklets s = [] then tracklet_index s = 0
      else 0 \<le>s tracklet_index s
           \<and> size_t_of_int (tracklet_index s) < length (availableTracklets s))"

text \<open>Every available tracklet has a pose at the current frame.\<close>

definition poses_in_range :: "KittiVisualizerQt \<Rightarrow> bool" where
  "poses_in_range s =
     list_all (\<lambda>t. size_t_of_int (frame_index s - first_frame t) < length (poses t))
       (availableTracklets s)"

definition cleared :: "KittiVisualizerQt \<Rightarrow> bool" where
  "cleared s =
     (wf_dataset (dataset s) \<and> availableTracklets s = []
      \<and> croppedTrackletPointClouds s = [])"

definition loaded :: "KittiVisualizerQt \<Rightarrow> bool" where
  "loaded s =
     (wf_dataset (dataset s) \<and> tracklets_loaded s
      \<and> length (croppedTrackletPointClouds s) = length (availableTracklets s))"

definition session_invariant :: "KittiVisualizerQt \<Rightarrow> bool" where
  "session_invariant s = (loaded s \<and> tracklet_index_valid s)"

text \<open>The two derived sequences belong to the current data set and frame, position by
  position; and the state in which both have just been cleared.\<close>

definition derived_aligned :: "KittiVisualizerQt \<Rightarrow> bool" where
  "derived_aligned s =
     (tracklets_loaded s
      \<and> length (croppedTrackletPointClouds s) = length (availableTracklets s))"

definition both_cleared :: "KittiVisualizerQt \<Rightarrow> bool" where
  "both_cleared s = (availableTracklets s = [] \<and> croppedTrackletPointClouds s = [])"

definition any_error :: "error \<Rightarrow> bool" where
  "any_error e = True"

text \<open>A statement keeps a part \<open>G\<close> of the state when every state it returns has the
  part it started with.\<close>

definition keeps ::
    "(KittiVisualizerQt \<Rightarrow> 'a) \<Rightarrow> (KittiVisualizerQt \<Rightarrow> error + KittiVisualizerQt) \<Rightarrow> bool" where
  "keeps G f = (\<forall>s s'. f s = Inr s' \<longrightarrow> G s' = G s)"

definition derived_of ::
    "KittiVisualizerQt \<Rightarrow> KittiDataset \<times> cint \<times> KittiTracklet list \<times> KittiPointCloud list" where
  "derived_of s = (dataset s, frame_index s, availableTracklets s, croppedTrackletPointClouds s)"

definition flags_of :: "KittiVisualizerQt \<Rightarrow> bool \<times> bool \<times> bool \<times> bool" where
  "flags_of s =
     (pointCloudVisible s, trackletBoundingBoxesVisible s, trackletPointsVisible s,
      trackletInCenterVisible s)"

text \<open>The identifiers that the expression \<open>lit + i\<close> gives for the positions \<open>i < n\<close>
  at which it is defined: the literal without its first \<open>i\<close> characters.\<close>

definition viewer_ids :: "string \<Rightarrow> nat \<Rightarrow> string set" where
  "viewer_ids lit n = (\<lambda>i. drop i lit) ` {i. i < n}"

section \<open>A small session\<close>

text \<open>Two data sets of three frames with empty clouds.  Tracklet A has poses for frames
  0 and 1, tracklet B for frames 0 to 2.\<close>

definition example_pose :: tPose where
  "example_pose = \<lparr>tx = 10, ty = 2, tz = - 1, rz = 0\<rparr>"

definition example_tracklet_A :: KittiTracklet where
  "example_tracklet_A =
     \<lparr>objectType = ''Car'', tracklet_h = 2, tracklet_w = 2, tracklet_l = 4,
      first_frame = 0, poses = [example_pose, example_pose]\<rparr>"

definition example_tracklet_B :: KittiTracklet where
  "example_tracklet_B =
     \<lparr>objectType = ''Van'', tracklet_h = 3, tracklet_w = 2, tracklet_l = 5,
      first_frame = 0, poses = [example_pose, example_pose, example_pose]\<rparr>"

definition example_dataset :: KittiDataset where
  "example_dataset =
     \<lparr>pointClouds = [[], [], []], tracklets = [example_tracklet_A, example_tracklet_B],
      imageFileName = (\<lambda>frameId. ''image.png'')\<rparr>"

definition example_environment :: environment where
  "example_environment =
     \<lparr>availableDatasets = [5, 9], getDatasetNumber = (\<lambda>index. index),
      openDataset = (\<lambda>number. example_dataset), getColor = (\<lambda>objectType. (255, 0, 0))\<rparr>"

text \<open>A state at frame 0 of the example data set with both tracklets available, the
  bounding boxes shown and the other layers hidden.\<close>

definition example_state :: KittiVisualizerQt where
  "example_state =
     \<lparr>dataset_index = 0, frame_index = 0, tracklet_index = 0,
      dataset = example_dataset, pointCloud = [],
      availableTracklets = [example_tracklet_A, example_tracklet_B],
      croppedTrackletPointClouds = [[], []],
      pointCloudVisible = False, trackletBoundingBoxesVisible = True,
      trackletPointsVisible = False, trackletInCenterVisible = False,
      pclVisualizer = Map.empty,
      label_dataSet = [], label_frame = [], label_tracklet = [], imageWidget = []\<rparr>"

text \<open>A state in which fifteen tracklets are available at frame 0.\<close>

definition crowded_state :: KittiVisualizerQt where
  "crowded_state = example_state\<lparr>availableTracklets := replicate 15 example_tracklet_B\<rparr>"

text \<open>The example state with a frame cloud of two points: the centre \<open>(10, 2, 0)\<close> of
  tracklet A's box at frame 0, and a point far outside the box.\<close>

definition centre_state :: KittiVisualizerQt where
  "centre_state =
     example_state\<lparr>pointCloud := [KittiPoint 10 2 0 7, KittiPoint 100 0 0 1]\<rparr>"

section \<open>Rules for sequences of statements and loops\<close>

lemma tripleI: "(\<And>s. P s \<Longrightarrow> (case f s of Inl e \<Rightarrow> E e | Inr s' \<Rightarrow> Q s')) \<Longrightarrow> triple P f Q E"
  by (simp add: triple_def)

lemma tripleD_Inr: "triple P f Q E \<Longrightarrow> P s \<Longrightarrow> f s = Inr s' \<Longrightarrow> Q s'"
  by (auto simp: triple_def split: sum.splits)

lemma tripleD_Inl: "triple P f Q E \<Longrightarrow> P s \<Longrightarrow> f s = Inl e \<Longrightarrow> E e"
  by (auto simp: triple_def split: sum.splits)

lemma triple_weaken:
  "triple P' f Q' E \<Longrightarrow> (\<And>s. P s \<Longrightarrow> P' s) \<Longrightarrow> (\<And>s. Q' s \<Longrightarrow> Q s) \<Longrightarrow> triple P f Q E"
  unfolding triple_def by (fastforce split: sum.splits)

lemma triple_nil: "triple P (run_steps []) P E"
  by (simp add: triple_def)

lemma triple_cons:
  "triple P step R E \<Longrightarrow> triple R (run_steps steps) Q E \<Longrightarrow> triple P (run_steps (step # steps)) Q E"
  by (auto simp: triple_def split: sum.splits)

lemma run_steps_append:
  "run_steps (xs @ ys) s = (case run_steps xs s of Inl e \<Rightarrow> Inl e | Inr s' \<Rightarrow> run_steps ys s')"
  by (induction xs arbitrary: s) (auto split: sum.splits)

lemma triple_append:
  "triple P (run_steps xs) R E \<Longrightarrow> triple R (run_steps ys) Q E \<Longrightarrow> triple P (run_steps (xs @ ys)) Q E"
  by (auto simp: triple_def run_steps_append split: sum.splits)

lemma triple_pure: "(\<And>s. P s \<Longrightarrow> Q (f s)) \<Longrightarrow> triple P (pure_step f) Q E"
  by (simp add: triple_def pure_step_def)

lemma triple_when_same:
  "triple P step P E \<Longrightarrow> triple P (when_step c step) P E"
  by (auto simp: triple_def when_step_def split: sum.splits)

lemma for_loop_step:
  "i < n \<Longrightarrow> for_loop i n body s = (case body i s of Inl e \<Rightarrow> Inl e | Inr s' \<Rightarrow> for_loop (Suc i) n body s')"
  by (subst for_loop.simps) (simp split: sum.splits)

lemma for_loop_done: "\<not> i < n \<Longrightarrow> for_loop i n body s = Inr s"
  by (subst for_loop.simps) simp

lemma triple_for_loop:
  assumes body: "\<And>k. i \<le> k \<Longrightarrow> k < n \<Longrightarrow> triple (I k) (body k) (I (Suc k)) E"
  shows "triple (\<lambda>s. I i s \<and> i \<le> n) (for_loop i n body) (I n) E"
  using body
proof (induction "n - i" arbitrary: i)
  case 0
  then show ?case by (auto simp: triple_def for_loop_done)
next
  case (Suc d)
  have lt: "i < n" using Suc.hyps(2) by simp
  have first: "triple (I i) (body i) (I (Suc i)) E" using Suc.prems[of i] lt by simp
  have rest: "triple (\<lambda>s. I (Suc i) s \<and> Suc i \<le> n) (for_loop (Suc i) n body) (I n) E"
    using Suc.hyps(1)[of "Suc i"] Suc.hyps(2) Suc.prems by simp
  show ?case
    using first rest lt by (auto simp: triple_def for_loop_step split: sum.splits)
qed

section \<open>Conversions between \<open>int\<close> and \<open>size_t\<close>\<close>

lemma sint_int_of_size_t: "n < 2 ^ 31 \<Longrightarrow> sint (int_of_size_t n) = int n"
  unfolding int_of_size_t_def
  by (simp add: signed_of_nat signed_take_bit_int_eq_self)

lemma size_t_of_int_nonneg: "0 \<le> sint i \<Longrightarrow> size_t_of_int i = nat (sint i)"
  by (simp add: size_t_of_int_def)

lemma size_t_of_int_negative: "sint i < 0 \<Longrightarrow> 2 ^ 31 \<le> size_t_of_int i"
proof -
  assume neg: "sint i < 0"
  have "- (2 ^ 31) \<le> sint i" using sint_ge[of i] by simp
  then have "(2::int) ^ 31 \<le> 2 ^ 64 + sint i" by simp
  then have "nat (2 ^ 31) \<le> nat (2 ^ 64 + sint i)" by (rule nat_mono)
  with neg show ?thesis by (simp add: size_t_of_int_def)
qed

lemma size_t_of_int_less_iff:
  "n < 2 ^ 31 \<Longrightarrow> size_t_of_int i < n \<longleftrightarrow> 0 \<le> sint i \<and> sint i < int n"
  using size_t_of_int_negative[of i] by (cases "0 \<le> sint i") (auto simp: size_t_of_int_nonneg)

lemma size_minus_1_pos: "0 < n \<Longrightarrow> n < 2 ^ 31 \<Longrightarrow> size_minus_1 n = n - 1"
proof -
  assume "0 < n" "n < 2 ^ 31"
  then obtain m where m: "n = Suc m" "m < 2 ^ 64" by (cases n) auto
  have "(Suc m + 2 ^ 64 - 1) mod 2 ^ 64 = (m + 2 ^ 64) mod (2 ^ 64 :: nat)" by simp
  also have "\<dots> = m" using m(2) by simp
  finally show ?thesis using m(1) by (simp add: size_minus_1_def)
qed

lemma int_of_size_minus_1_zero: "int_of_size_t (size_minus_1 0) = - 1"
  by (simp add: size_minus_1_def int_of_size_t_def)


lemma pose_in_range:
  assumes "wf_tracklet t" "first_frame t \<le>s f" "f \<le>s lastFrame t"
  shows "size_t_of_int (f - first_frame t) < length (poses t)"
proof -
  let ?a = "sint (first_frame t)" and ?b = "sint f" and ?n = "length (poses t)"
  have a0: "0 \<le> ?a" and n: "?n < 2 ^ 31" using assms(1) by (simp_all add: wf_tracklet_def word_sle_eq)
  have ab: "?a \<le> ?b" using assms(2) by (simp add: word_sle_eq)
  have b: "?b < 2 ^ 31" using sint_lt[of f] by simp
  have eq: "lastFrame t = word_of_int (?a + int ?n - 1)"
    by (simp add: lastFrame_def int_of_size_t_def)
  have "sint (word_of_int (?a + int ?n - 1) :: cint) = signed_take_bit 31 (?a + int ?n - 1)"
    by (subst sint_sbintrunc') simp
  then have last: "sint (lastFrame t) = signed_take_bit 31 (?a + int ?n - 1)"
    by (simp only: eq)
  have bl: "?b \<le> sint (lastFrame t)" using assms(3) by (simp add: word_sle_eq)
  have small: "?a + int ?n - 1 < 2 ^ 31"
  proof (rule ccontr)
    assume "\<not> ?a + int ?n - 1 < 2 ^ 31"
    then have "2 ^ 31 \<le> ?a + int ?n - 1" by simp
    then have "signed_take_bit 31 (?a + int ?n - 1) \<le> ?a + int ?n - 1 - 2 ^ Suc 31"
      by (rule signed_take_bit_int_less_eq)
    then have "sint (lastFrame t) \<le> ?a + int ?n - 1 - 4294967296"
      by (simp add: last)
    moreover have "?a < 2147483648" using sint_lt[of "first_frame t"] by simp
    moreover have "int ?n < 2147483648" using n by simp
    ultimately have "sint (lastFrame t) < 0" by linarith
    with bl ab a0 show False by simp
  qed
  have "- (2 ^ 31) \<le> ?a + int ?n - 1" using a0 by simp
  with small have "signed_take_bit 31 (?a + int ?n - 1) = ?a + int ?n - 1"
    by (simp add: signed_take_bit_int_eq_self)
  with last bl have le: "?b - ?a < int ?n" by simp
  have "sint (f - first_frame t) = signed_take_bit 31 (?b - ?a)"
    by (simp add: sint_word_ariths)
  also have "\<dots> = ?b - ?a"
    using ab a0 b by (simp add: signed_take_bit_int_eq_self)
  finally have "sint (f - first_frame t) = ?b - ?a" .
  with ab le show ?thesis by (simp add: size_t_of_int_def)
qed

section \<open>What showing and hiding change, and how they can fail\<close>

lemma for_loop_Inr:
  assumes "for_loop i n body s = Inr s'" and "I i s" and "i \<le> n"
    and "\<And>k t t'. i \<le> k \<Longrightarrow> k < n \<Longrightarrow> I k t \<Longrightarrow> body k t = Inr t' \<Longrightarrow> I (Suc k) t'"
  shows "I n s'"
proof -
  have "triple (\<lambda>s. I i s \<and> i \<le> n) (for_loop i n body) (I n) (\<lambda>e. True)"
    by (rule triple_for_loop) (auto simp: triple_def assms(4) split: sum.splits)
  then show ?thesis using assms(1-3) by (auto dest: tripleD_Inr)
qed

lemma for_loop_Inl:
  assumes "for_loop i n body s = Inl e" and "I i s" and "i \<le> n"
    and "\<And>k t t'. i \<le> k \<Longrightarrow> k < n \<Longrightarrow> I k t \<Longrightarrow> body k t = Inr t' \<Longrightarrow> I (Suc k) t'"
    and "\<And>k t. i \<le> k \<Longrightarrow> k < n \<Longrightarrow> I k t \<Longrightarrow> body k t = Inl e \<Longrightarrow> False"
  shows False
proof -
  have "triple (I k) (body k) (I (Suc k)) (\<lambda>e'. e' \<noteq> e)" if "i \<le> k" "k < n" for k
    unfolding triple_def using assms(4,5) that by (fastforce split: sum.splits)
  then have "triple (\<lambda>s. I i s \<and> i \<le> n) (for_loop i n body) (I n) (\<lambda>e'. e' \<noteq> e)"
    by (rule triple_for_loop)
  then show ?thesis using assms(1-3) by (auto dest: tripleD_Inl)
qed

text \<open>Operations that write the scene only.\<close>

lemma triple_scene_only:
  assumes "\<And>s s'. f s = Inr s' \<Longrightarrow> \<exists>sc. s' = s\<lparr>pclVisualizer := sc\<rparr>"
    and "\<And>s sc. P s \<Longrightarrow> P (s\<lparr>pclVisualizer := sc\<rparr>)"
    and "\<And>s e. P s \<Longrightarrow> f s = Inl e \<Longrightarrow> E e"
  shows "triple P f P E"
proof (rule tripleI)
  fix s assume P: "P s"
  show "case f s of Inl e \<Rightarrow> E e | Inr s' \<Rightarrow> P s'"
  proof (cases "f s")
    case (Inl e) with P assms(3) show ?thesis by simp
  next
    case (Inr s')
    with assms(1) obtain sc where "s' = s\<lparr>pclVisualizer := sc\<rparr>" by blast
    with P assms(2) Inr show ?thesis by simp
  qed
qed

lemma scene_loop_Inr:
  assumes body: "\<And>k t t'. body k t = Inr t' \<Longrightarrow> \<exists>sc. t' = t\<lparr>pclVisualizer := sc\<rparr>"
    and run: "for_loop 0 n body s = Inr s'"
  shows "\<exists>sc. s' = s\<lparr>pclVisualizer := sc\<rparr>"
proof (rule for_loop_Inr[where I = "\<lambda>k t. \<exists>sc. t = s\<lparr>pclVisualizer := sc\<rparr>", OF run])
  show "\<exists>sc. s = s\<lparr>pclVisualizer := sc\<rparr>" by (rule exI[of _ "pclVisualizer s"]) simp
next
  fix k t t'
  assume "\<exists>sc. t = s\<lparr>pclVisualizer := sc\<rparr>" "body k t = Inr t'"
  then show "\<exists>sc. t' = s\<lparr>pclVisualizer := sc\<rparr>" using body[of k t t'] by auto
qed simp

lemma scene_loop_Inl:
  assumes body: "\<And>k t t'. body k t = Inr t' \<Longrightarrow> \<exists>sc. t' = t\<lparr>pclVisualizer := sc\<rparr>"
    and run: "for_loop 0 n body s = Inl e"
  shows "\<exists>k sc. k < n \<and> body k (s\<lparr>pclVisualizer := sc\<rparr>) = Inl e"
proof (rule ccontr)
  assume no: "\<not> ?thesis"
  show False
  proof (rule for_loop_Inl[where I = "\<lambda>k t. \<exists>sc. t = s\<lparr>pclVisualizer := sc\<rparr>", OF run])
    show "\<exists>sc. s = s\<lparr>pclVisualizer := sc\<rparr>" by (rule exI[of _ "pclVisualizer s"]) simp
  next
    fix k t t'
    assume "\<exists>sc. t = s\<lparr>pclVisualizer := sc\<rparr>" "body k t = Inr t'"
    then show "\<exists>sc. t' = s\<lparr>pclVisualizer := sc\<rparr>" using body[of k t t'] by auto
  next
    fix k t
    assume "k < n" "\<exists>sc. t = s\<lparr>pclVisualizer := sc\<rparr>" "body k t = Inl e"
    with no show False by blast
  qed simp
qed

lemma showTrackletBoxes_body_Inr:
  "showTrackletBoxes_body k t = Inr t' \<Longrightarrow> \<exists>sc. t' = t\<lparr>pclVisualizer := sc\<rparr>"
  by (auto simp: showTrackletBoxes_body_def split: sum.splits)

lemma hideTrackletBoxes_body_Inr:
  "hideTrackletBoxes_body k t = Inr t' \<Longrightarrow> \<exists>sc. t' = t\<lparr>pclVisualizer := sc\<rparr>"
  by (auto simp: hideTrackletBoxes_body_def split: sum.splits)

lemma showTrackletPoints_body_Inr:
  "showTrackletPoints_body env k t = Inr t' \<Longrightarrow> \<exists>sc. t' = t\<lparr>pclVisualizer := sc\<rparr>"
  by (auto simp: showTrackletPoints_body_def split: sum.splits)

lemma hideTrackletPoints_body_Inr:
  "hideTrackletPoints_body k t = Inr t' \<Longrightarrow> \<exists>sc. t' = t\<lparr>pclVisualizer := sc\<rparr>"
  by (auto simp: hideTrackletPoints_body_def split: sum.splits)

lemma showTrackletBoxes_Inr: "showTrackletBoxes s = Inr s' \<Longrightarrow> \<exists>sc. s' = s\<lparr>pclVisualizer := sc\<rparr>"
  unfolding showTrackletBoxes_def by (erule scene_loop_Inr[rotated]) (rule showTrackletBoxes_body_Inr)

lemma hideTrackletBoxes_Inr: "hideTrackletBoxes s = Inr s' \<Longrightarrow> \<exists>sc. s' = s\<lparr>pclVisualizer := sc\<rparr>"
  unfolding hideTrackletBoxes_def by (erule scene_loop_Inr[rotated]) (rule hideTrackletBoxes_body_Inr)

lemma showTrackletPoints_Inr: "showTrackletPoints env s = Inr s' \<Longrightarrow> \<exists>sc. s' = s\<lparr>pclVisualizer := sc\<rparr>"
  unfolding showTrackletPoints_def by (erule scene_loop_Inr[rotated]) (rule showTrackletPoints_body_Inr)

lemma hideTrackletPoints_Inr: "hideTrackletPoints s = Inr s' \<Longrightarrow> \<exists>sc. s' = s\<lparr>pclVisualizer := sc\<rparr>"
  unfolding hideTrackletPoints_def by (erule scene_loop_Inr[rotated]) (rule hideTrackletPoints_body_Inr)

lemma showTrackletInCenter_Inr: "showTrackletInCenter s = Inr s' \<Longrightarrow> \<exists>sc. s' = s\<lparr>pclVisualizer := sc\<rparr>"
  by (cases "length (availableTracklets s) = 0")
     (auto simp: showTrackletInCenter_def intro: exI[of _ "pclVisualizer s"] split: sum.splits)

lemma hideTrackletBoxes_Inl:
  assumes "hideTrackletBoxes s = Inl e"
  shows "e = UndefinedBehaviour"
proof -
  have "\<exists>k sc. k < length (availableTracklets s)
          \<and> hideTrackletBoxes_body k (s\<lparr>pclVisualizer := sc\<rparr>) = Inl e"
    using assms unfolding hideTrackletBoxes_def
    by (rule scene_loop_Inl[rotated]) (rule hideTrackletBoxes_body_Inr)
  then show ?thesis
    by (auto simp: hideTrackletBoxes_body_def literal_plus_def split: sum.splits if_splits)
qed

lemma hideTrackletPoints_Inl:
  assumes "hideTrackletPoints s = Inl e"
  shows "e = UndefinedBehaviour"
proof -
  have "\<exists>k sc. k < length (availableTracklets s)
          \<and> hideTrackletPoints_body k (s\<lparr>pclVisualizer := sc\<rparr>) = Inl e"
    using assms unfolding hideTrackletPoints_def
    by (rule scene_loop_Inl[rotated]) (rule hideTrackletPoints_body_Inr)
  then show ?thesis
    by (auto simp: hideTrackletPoints_body_def literal_plus_def split: sum.splits if_splits)
qed

lemma showTrackletBoxes_Inl:
  assumes "showTrackletBoxes s = Inl e" and "poses_in_range s"
  shows "e = UndefinedBehaviour"
proof -
  have "\<exists>k sc. k < length (availableTracklets s)
          \<and> showTrackletBoxes_body k (s\<lparr>pclVisualizer := sc\<rparr>) = Inl e"
    using assms(1) unfolding showTrackletBoxes_def
    by (rule scene_loop_Inl[rotated]) (rule showTrackletBoxes_body_Inr)
  then obtain k sc where k: "k < length (availableTracklets s)"
    and b: "showTrackletBoxes_body k (s\<lparr>pclVisualizer := sc\<rparr>) = Inl e" by blast
  have "size_t_of_int (frame_index s - first_frame (availableTracklets s ! k))
          < length (poses (availableTracklets s ! k))"
    using assms(2) k by (simp add: poses_in_range_def list_all_length)
  with k b show ?thesis
    by (auto simp: showTrackletBoxes_body_def vector_at_def literal_plus_def split: sum.splits if_splits)
qed

lemma showTrackletPoints_Inl:
  assumes "showTrackletPoints env s = Inl e"
    and "length (croppedTrackletPointClouds s) = length (availableTracklets s)"
  shows "e = UndefinedBehaviour"
proof -
  have "\<exists>k sc. k < length (availableTracklets s)
          \<and> showTrackletPoints_body env k (s\<lparr>pclVisualizer := sc\<rparr>) = Inl e"
    using assms(1) unfolding showTrackletPoints_def
    by (rule scene_loop_Inl[rotated]) (rule showTrackletPoints_body_Inr)
  then obtain k sc where k: "k < length (availableTracklets s)"
    and b: "showTrackletPoints_body env k (s\<lparr>pclVisualizer := sc\<rparr>) = Inl e" by blast
  with assms(2) show ?thesis
    by (auto simp: showTrackletPoints_body_def vector_at_def literal_plus_def split: sum.splits if_splits)
qed

lemma getTrackletPointCloud_in_range:
  "size_t_of_int (f - first_frame t) < length (poses t) \<Longrightarrow>
     \<exists>cloud. getTrackletPointCloud pc t f = Inr cloud"
  by (simp add: getTrackletPointCloud_def vector_at_def)

lemma showTrackletInCenter_Inl:
  assumes "showTrackletInCenter s = Inl e" and "poses_in_range s" and "tracklet_index_valid s"
  shows False
proof -
  from assms(1) have ne: "availableTracklets s \<noteq> []"
    by (auto simp: showTrackletInCenter_def split: if_splits)
  with assms(3) have i: "size_t_of_int (tracklet_index s) < length (availableTracklets s)"
    by (simp add: tracklet_index_valid_def)
  let ?t = "availableTracklets s ! size_t_of_int (tracklet_index s)"
  have p: "size_t_of_int (frame_index s - first_frame ?t) < length (poses ?t)"
    using assms(2) i by (simp add: poses_in_range_def list_all_length)
  from getTrackletPointCloud_in_range[OF p] obtain cloud
    where "getTrackletPointCloud (pointCloud s) ?t (frame_index s) = Inr cloud" by blast
  with assms(1) ne i p show False
    by (simp add: showTrackletInCenter_def vector_at_def)
qed

section \<open>Loading, labels and the clamp\<close>

lemma loadAvailableTracklets_body_eq:
  "loadAvailableTracklets_body k t =
     Inr (t\<lparr>availableTracklets := availableTracklets t
            @ filter (\<lambda>u. first_frame u \<le>s frame_index t \<and> frame_index t \<le>s lastFrame u)
                [tracklets (dataset t) ! k]\<rparr>)"
  by (simp add: loadAvailableTracklets_body_def getTracklet_def Let_def)

lemma loadAvailableTracklets_eq:
  "loadAvailableTracklets s =
     Inr (s\<lparr>availableTracklets := availableTracklets s
            @ filter (\<lambda>t. first_frame t \<le>s frame_index s \<and> frame_index s \<le>s lastFrame t)
                (tracklets (dataset s))\<rparr>)"
proof -
  let ?ts = "tracklets (dataset s)"
  let ?A = "\<lambda>t. first_frame t \<le>s frame_index s \<and> frame_index s \<le>s lastFrame t"
  let ?I = "\<lambda>k t. t = s\<lparr>availableTracklets := availableTracklets s @ filter ?A (take k ?ts)\<rparr>"
  have step: "?I (Suc k) t'" if "k < length ?ts" "?I k t" "loadAvailableTracklets_body k t = Inr t'" for k t t'
    using that by (simp add: loadAvailableTracklets_body_eq take_Suc_conv_app_nth)
  show ?thesis
  proof (cases "loadAvailableTracklets s")
    case (Inl e)
    then have run: "for_loop 0 (length ?ts) loadAvailableTracklets_body s = Inl e"
      by (simp add: loadAvailableTracklets_def numberOfTracklets_def)
    have False
      by (rule for_loop_Inl[where I = ?I, OF run]) (simp_all add: step loadAvailableTracklets_body_eq)
    then show ?thesis ..
  next
    case (Inr s')
    then have run: "for_loop 0 (length ?ts) loadAvailableTracklets_body s = Inr s'"
      by (simp add: loadAvailableTracklets_def numberOfTracklets_def)
    have "?I (length ?ts) s'"
      by (rule for_loop_Inr[where I = ?I, OF run]) (simp_all add: step)
    with Inr show ?thesis by simp
  qed
qed

lemma loadTrackletPoints_body_Inr:
  "loadTrackletPoints_body k t = Inr t' \<Longrightarrow>
     \<exists>c. t' = t\<lparr>croppedTrackletPointClouds := croppedTrackletPointClouds t @ [c]\<rparr>"
  by (auto simp: loadTrackletPoints_body_def split: sum.splits)

lemma loadTrackletPoints_Inr:
  assumes "loadTrackletPoints s = Inr s'"
  shows "\<exists>cs. s' = s\<lparr>croppedTrackletPointClouds := croppedTrackletPointClouds s @ cs\<rparr>
           \<and> length cs = length (availableTracklets s)"
proof -
  let ?I = "\<lambda>k t. \<exists>cs. t = s\<lparr>croppedTrackletPointClouds := croppedTrackletPointClouds s @ cs\<rparr>
                \<and> length cs = k"
  have run: "for_loop 0 (length (availableTracklets s)) loadTrackletPoints_body s = Inr s'"
    using assms by (simp add: loadTrackletPoints_def)
  show ?thesis
  proof (rule for_loop_Inr[where I = ?I, OF run])
    show "?I 0 s" by (rule exI[of _ "[]"]) simp
  next
    fix k t t'
    assume "?I k t" and b: "loadTrackletPoints_body k t = Inr t'"
    then obtain cs where t: "t = s\<lparr>croppedTrackletPointClouds := croppedTrackletPointClouds s @ cs\<rparr>"
      and l: "length cs = k" by blast
    from loadTrackletPoints_body_Inr[OF b] obtain c
      where "t' = t\<lparr>croppedTrackletPointClouds := croppedTrackletPointClouds t @ [c]\<rparr>" by blast
    with t l show "?I (Suc k) t'" by (intro exI[of _ "cs @ [c]"]) simp
  qed simp
qed

lemma loadTrackletPoints_Inl:
  assumes "loadTrackletPoints s = Inl e" and "poses_in_range s"
  shows False
proof -
  let ?I = "\<lambda>k t. \<exists>cs. t = s\<lparr>croppedTrackletPointClouds := cs\<rparr>"
  have run: "for_loop 0 (length (availableTracklets s)) loadTrackletPoints_body s = Inl e"
    using assms(1) by (simp add: loadTrackletPoints_def)
  show ?thesis
  proof (rule for_loop_Inl[where I = ?I, OF run])
    show "?I 0 s" by (rule exI[of _ "croppedTrackletPointClouds s"]) simp
  next
    fix k t t'
    assume "?I k t" "loadTrackletPoints_body k t = Inr t'"
    then show "?I (Suc k) t'" by (auto dest!: loadTrackletPoints_body_Inr)
  next
    fix k t
    assume k: "k < length (availableTracklets s)" and "?I k t" and b: "loadTrackletPoints_body k t = Inl e"
    then obtain cs where t: "t = s\<lparr>croppedTrackletPointClouds := cs\<rparr>" by blast
    let ?u = "availableTracklets s ! k"
    have "size_t_of_int (frame_index s - first_frame ?u) < length (poses ?u)"
      using assms(2) k by (simp add: poses_in_range_def list_all_length)
    from getTrackletPointCloud_in_range[OF this] obtain cloud
      where "getTrackletPointCloud (pointCloud s) ?u (frame_index s) = Inr cloud" by blast
    with b k t show False by (simp add: loadTrackletPoints_body_def vector_at_def)
  qed simp
qed

lemma updateTrackletLabel_Inr:
  "updateTrackletLabel s = Inr s' \<Longrightarrow> \<exists>text. s' = s\<lparr>label_tracklet := text\<rparr>"
  by (auto simp: updateTrackletLabel_def split: sum.splits if_splits)

lemma updateTrackletLabel_Inl:
  assumes "updateTrackletLabel s = Inl e" and "tracklet_index_valid s"
    and "length (croppedTrackletPointClouds s) = length (availableTracklets s)"
  shows False
  using assms
  by (auto simp: updateTrackletLabel_def tracklet_index_valid_def vector_at_def
           split: sum.splits if_splits)

lemma loadPointCloud_Inr: "loadPointCloud s = Inr s' \<Longrightarrow> \<exists>cloud. s' = s\<lparr>pointCloud := cloud\<rparr>"
  by (auto simp: loadPointCloud_def split: sum.splits)

lemma loadPointCloud_Inl: "loadPointCloud s = Inl e \<Longrightarrow> e = FrameReadError"
  by (auto simp: loadPointCloud_def getPointCloud_def split: sum.splits if_splits)

lemma clamp_to_size_empty: "clamp_to_size i 0 = 0"
  by (simp add: clamp_to_size_def int_of_size_minus_1_zero word_sless_alt)

lemma clamp_to_size_valid:
  assumes "0 < n" and "n < 2 ^ 31"
  shows "0 \<le>s clamp_to_size i n \<and> size_t_of_int (clamp_to_size i n) < n"
proof (cases "n \<le> size_t_of_int i")
  case True
  have "sint (int_of_size_t (n - 1)) = int (n - 1)"
    using assms by (intro sint_int_of_size_t) simp
  moreover have "int (n - 1) = int n - 1"
  proof -
    obtain m where "n = Suc m" using assms(1) by (cases n) auto
    then show ?thesis by simp
  qed
  ultimately have "sint (int_of_size_t (size_minus_1 n)) = int n - 1"
    using assms by (simp add: size_minus_1_pos)
  with True assms show ?thesis
    by (simp add: clamp_to_size_def Let_def word_sless_alt word_sle_eq size_t_of_int_less_iff)
next
  case False
  then have "size_t_of_int i < n" by simp
  with assms have "0 \<le> sint i" "sint i < int n"
    by (simp_all add: size_t_of_int_less_iff)
  with False assms show ?thesis
    by (simp add: clamp_to_size_def Let_def word_sless_alt word_sle_eq size_t_of_int_less_iff)
qed

lemma clampTrackletIndex_valid:
  assumes "length (availableTracklets s) < 2 ^ 31"
  shows "tracklet_index_valid (clampTrackletIndex s)"
  using assms clamp_to_size_valid[of "length (availableTracklets s)" "tracklet_index s"]
  by (cases "availableTracklets s = []")
     (simp_all add: clampTrackletIndex_def tracklet_index_valid_def clamp_to_size_empty)

lemma poses_in_range_loaded:
  assumes "wf_dataset (dataset s)" and "tracklets_loaded s"
  shows "poses_in_range s"
proof -
  have "size_t_of_int (frame_index s - first_frame t) < length (poses t)"
    if "t \<in> set (availableTracklets s)" for t
  proof -
    from that assms(2) have t: "t \<in> set (tracklets (dataset s))"
      and a: "first_frame t \<le>s frame_index s" "frame_index s \<le>s lastFrame t"
      by (simp_all add: tracklets_loaded_def)
    from t assms(1) have "wf_tracklet t" by (simp add: wf_dataset_def list_all_iff)
    then show ?thesis using a by (rule pose_in_range)
  qed
  then show ?thesis by (simp add: poses_in_range_def list_all_iff)
qed

lemma tracklets_loaded_length:
  "wf_dataset (dataset s) \<Longrightarrow> tracklets_loaded s \<Longrightarrow> length (availableTracklets s) < 2 ^ 31"
proof -
  assume "wf_dataset (dataset s)" "tracklets_loaded s"
  then have "length (availableTracklets s) \<le> length (tracklets (dataset s))"
    and "length (tracklets (dataset s)) < 2 ^ 31"
    by (simp_all add: tracklets_loaded_def wf_dataset_def)
  then show ?thesis by simp
qed

section \<open>The two shared runs of statements\<close>

lemma triple_load_and_show:
  "triple (\<lambda>s. cleared s \<and> T (tracklet_index s)) (run_steps (load_and_show env))
     (\<lambda>s. loaded s \<and> T (tracklet_index s)) benign"
proof -
  let ?P = "\<lambda>s. cleared s \<and> T (tracklet_index s)"
  let ?M = "\<lambda>s. wf_dataset (dataset s) \<and> tracklets_loaded s \<and> croppedTrackletPointClouds s = []
              \<and> T (tracklet_index s)"
  let ?Q = "\<lambda>s. loaded s \<and> T (tracklet_index s)"
  have 1: "triple ?P loadPointCloud ?P benign"
    by (auto simp: triple_def cleared_def benign_def dest!: loadPointCloud_Inr loadPointCloud_Inl
             split: sum.splits)
  have 2: "triple ?P (when_step pointCloudVisible (pure_step showPointCloud)) ?P benign"
    by (auto simp: triple_def when_step_def pure_step_def showPointCloud_def cleared_def)
  have 3: "triple ?P (pure_step loadImageFile) ?P benign"
    by (auto simp: triple_def pure_step_def loadImageFile_def cleared_def)
  have 4: "triple ?P loadAvailableTracklets ?M benign"
    by (auto simp: triple_def loadAvailableTracklets_eq cleared_def tracklets_loaded_def)
  have 5: "triple ?M (when_step trackletBoundingBoxesVisible showTrackletBoxes) ?M benign"
  proof (rule triple_when_same, rule triple_scene_only)
    show "\<exists>sc. s' = s\<lparr>pclVisualizer := sc\<rparr>" if "showTrackletBoxes s = Inr s'" for s s'
      using that by (rule showTrackletBoxes_Inr)
    show "?M (s\<lparr>pclVisualizer := sc\<rparr>)" if "?M s" for s sc
      using that by (simp add: tracklets_loaded_def)
    show "benign e" if "?M s" "showTrackletBoxes s = Inl e" for s e
      using that showTrackletBoxes_Inl[of s e] poses_in_range_loaded[of s] by (simp add: benign_def)
  qed
  have 6: "triple ?M loadTrackletPoints ?Q benign"
  proof (rule tripleI)
    fix s assume M: "?M s"
    show "case loadTrackletPoints s of Inl e \<Rightarrow> benign e | Inr s' \<Rightarrow> ?Q s'"
    proof (cases "loadTrackletPoints s")
      case (Inl e)
      with M loadTrackletPoints_Inl[of s e] poses_in_range_loaded[of s] show ?thesis by simp
    next
      case (Inr s')
      with M loadTrackletPoints_Inr[of s s'] show ?thesis
        by (auto simp: loaded_def tracklets_loaded_def)
    qed
  qed
  have 7: "triple ?Q (when_step trackletPointsVisible (showTrackletPoints env)) ?Q benign"
  proof (rule triple_when_same, rule triple_scene_only)
    show "\<exists>sc. s' = s\<lparr>pclVisualizer := sc\<rparr>" if "showTrackletPoints env s = Inr s'" for s s'
      using that by (rule showTrackletPoints_Inr)
    show "?Q (s\<lparr>pclVisualizer := sc\<rparr>)" if "?Q s" for s sc
      using that by (simp add: loaded_def tracklets_loaded_def)
    show "benign e" if "?Q s" "showTrackletPoints env s = Inl e" for s e
      using that showTrackletPoints_Inl[of env s e] by (simp add: benign_def loaded_def)
  qed
  show ?thesis
    unfolding load_and_show_def
    by (intro triple_cons[OF 1] triple_cons[OF 2] triple_cons[OF 3] triple_cons[OF 4]
        triple_cons[OF 5] triple_cons[OF 6] triple_cons[OF 7] triple_nil)
qed

lemma triple_hide_and_clear:
  "triple (\<lambda>s. D (dataset s) \<and> T (tracklet_index s)) (run_steps hide_and_clear)
     (\<lambda>s. D (dataset s) \<and> availableTracklets s = [] \<and> croppedTrackletPointClouds s = []
           \<and> T (tracklet_index s)) benign"
proof -
  let ?P = "\<lambda>s. D (dataset s) \<and> T (tracklet_index s)"
  let ?P1 = "\<lambda>s. D (dataset s) \<and> croppedTrackletPointClouds s = [] \<and> T (tracklet_index s)"
  let ?P2 = "\<lambda>s. D (dataset s) \<and> availableTracklets s = [] \<and> croppedTrackletPointClouds s = []
                \<and> T (tracklet_index s)"
  have 1: "triple ?P (when_step trackletInCenterVisible (pure_step hideTrackletInCenter)) ?P benign"
    by (auto simp: triple_def when_step_def pure_step_def hideTrackletInCenter_def)
  have 2: "triple ?P (when_step trackletPointsVisible hideTrackletPoints) ?P benign"
    by (rule triple_when_same, rule triple_scene_only)
       (auto dest: hideTrackletPoints_Inr hideTrackletPoints_Inl simp: benign_def)
  have 3: "triple ?P (pure_step clearTrackletPoints) ?P1 benign"
    by (auto simp: triple_def pure_step_def clearTrackletPoints_def)
  have 4: "triple ?P1 (when_step trackletBoundingBoxesVisible hideTrackletBoxes) ?P1 benign"
    by (rule triple_when_same, rule triple_scene_only)
       (auto dest: hideTrackletBoxes_Inr hideTrackletBoxes_Inl simp: benign_def)
  have 5: "triple ?P1 (pure_step clearAvailableTracklets) ?P2 benign"
    by (auto simp: triple_def pure_step_def clearAvailableTracklets_def)
  have 6: "triple ?P2 (when_step pointCloudVisible (pure_step hidePointCloud)) ?P2 benign"
    by (auto simp: triple_def when_step_def pure_step_def hidePointCloud_def)
  show ?thesis
    unfolding hide_and_clear_def
    by (intro triple_cons[OF 1] triple_cons[OF 2] triple_cons[OF 3] triple_cons[OF 4]
        triple_cons[OF 5] triple_cons[OF 6] triple_nil)
qed

section \<open>The handlers keep the session invariant\<close>

lemma triple_clampTrackletIndex: "triple loaded (pure_step clampTrackletIndex) session_invariant E"
proof (rule triple_pure)
  fix s assume l: "loaded s"
  then have "length (availableTracklets s) < 2 ^ 31"
    using tracklets_loaded_length[of s] by (simp add: loaded_def)
  then have "tracklet_index_valid (clampTrackletIndex s)" by (rule clampTrackletIndex_valid)
  moreover have "loaded (clampTrackletIndex s)"
    using l by (simp add: loaded_def tracklets_loaded_def clampTrackletIndex_def)
  ultimately show "session_invariant (clampTrackletIndex s)" by (simp add: session_invariant_def)
qed

lemma session_invariant_poses: "session_invariant s \<Longrightarrow> poses_in_range s"
  by (simp add: session_invariant_def loaded_def poses_in_range_loaded)

lemma triple_showTrackletInCenter:
  "triple session_invariant (when_step trackletInCenterVisible showTrackletInCenter)
     session_invariant E"
proof (rule triple_when_same, rule triple_scene_only)
  show "\<exists>sc. s' = s\<lparr>pclVisualizer := sc\<rparr>" if "showTrackletInCenter s = Inr s'" for s s'
    using that by (rule showTrackletInCenter_Inr)
  show "session_invariant (s\<lparr>pclVisualizer := sc\<rparr>)" if "session_invariant s" for s sc
    using that by (auto simp: session_invariant_def loaded_def tracklets_loaded_def tracklet_index_valid_def)
  show "E e" if "session_invariant s" "showTrackletInCenter s = Inl e" for s e
    using that showTrackletInCenter_Inl[of s e] session_invariant_poses[of s]
    by (simp add: session_invariant_def)
qed

lemma triple_updateTrackletLabel: "triple session_invariant updateTrackletLabel session_invariant E"
proof (rule tripleI)
  fix s assume inv: "session_invariant s"
  show "case updateTrackletLabel s of Inl e \<Rightarrow> E e | Inr s' \<Rightarrow> session_invariant s'"
  proof (cases "updateTrackletLabel s")
    case (Inl e)
    with inv updateTrackletLabel_Inl[of s e] show ?thesis
      by (simp add: session_invariant_def loaded_def)
  next
    case (Inr s')
    with inv updateTrackletLabel_Inr[of s s'] show ?thesis
      by (auto simp: session_invariant_def loaded_def tracklets_loaded_def tracklet_index_valid_def)
  qed
qed

lemma triple_select_and_label:
  "triple loaded
     (run_steps [pure_step clampTrackletIndex,
                 when_step trackletInCenterVisible showTrackletInCenter,
                 pure_step updateFrameLabel,
                 updateTrackletLabel])
     session_invariant E"
proof -
  have "triple session_invariant (pure_step updateFrameLabel) session_invariant E"
    by (rule triple_pure)
       (auto simp: updateFrameLabel_def session_invariant_def loaded_def tracklets_loaded_def
          tracklet_index_valid_def)
  then show ?thesis
    by (intro triple_cons[OF triple_clampTrackletIndex] triple_cons[OF triple_showTrackletInCenter]
        triple_cons[OF _ triple_cons[OF triple_updateTrackletLabel triple_nil]])
qed

lemma triple_newFrameRequested:
  "triple session_invariant (newFrameRequested env value) session_invariant benign"
proof (rule tripleI)
  fix s assume inv: "session_invariant s"
  show "case newFrameRequested env value s of Inl e \<Rightarrow> benign e | Inr s' \<Rightarrow> session_invariant s'"
  proof (cases "frame_index s = value")
    case True
    with inv show ?thesis by (simp add: newFrameRequested_def)
  next
    case False
    have h: "triple (\<lambda>s. wf_dataset (dataset s) \<and> True) (run_steps hide_and_clear)
               (\<lambda>s. wf_dataset (dataset s) \<and> availableTracklets s = []
                     \<and> croppedTrackletPointClouds s = [] \<and> True) benign"
      by (rule triple_hide_and_clear)
    have h': "triple session_invariant (run_steps hide_and_clear) cleared benign"
      by (rule triple_weaken[OF h]) (simp_all add: session_invariant_def loaded_def cleared_def)
    have f: "triple cleared
               (run_steps [pure_step (\<lambda>s. s\<lparr>frame_index := value\<rparr>),
                           pure_step clampFrameIndexAbove, pure_step clampFrameIndexBelow])
               cleared benign"
      by (intro triple_cons[where R = cleared] triple_nil triple_pure)
         (simp_all add: cleared_def clampFrameIndexAbove_def clampFrameIndexBelow_def)
    have l: "triple (\<lambda>s. cleared s \<and> True) (run_steps (load_and_show env))
               (\<lambda>s. loaded s \<and> True) benign"
      by (rule triple_load_and_show)
    have l': "triple cleared (run_steps (load_and_show env)) loaded benign"
      by (rule triple_weaken[OF l]) simp_all
    have "triple session_invariant
            (run_steps (hide_and_clear
               @ [pure_step (\<lambda>s. s\<lparr>frame_index := value\<rparr>),
                  pure_step clampFrameIndexAbove, pure_step clampFrameIndexBelow]
               @ load_and_show env
               @ [pure_step clampTrackletIndex,
                  when_step trackletInCenterVisible showTrackletInCenter,
                  pure_step updateFrameLabel,
                  updateTrackletLabel]))
            session_invariant benign"
      by (intro triple_append[OF h'] triple_append[OF f] triple_append[OF l']
          triple_select_and_label)
    from this inv have "case run_steps (hide_and_clear
               @ [pure_step (\<lambda>s. s\<lparr>frame_index := value\<rparr>),
                  pure_step clampFrameIndexAbove, pure_step clampFrameIndexBelow]
               @ load_and_show env
               @ [pure_step clampTrackletIndex,
                  when_step trackletInCenterVisible showTrackletInCenter,
                  pure_step updateFrameLabel,
                  updateTrackletLabel]) s of Inl e \<Rightarrow> benign e | Inr s' \<Rightarrow> session_invariant s'"
      by (simp add: triple_def)
    with False show ?thesis by (simp add: newFrameRequested_def)
  qed
qed

lemma session_invariant_scene:
  "session_invariant s \<Longrightarrow> session_invariant (s\<lparr>pclVisualizer := sc\<rparr>)"
  by (auto simp: session_invariant_def loaded_def tracklets_loaded_def tracklet_index_valid_def)

lemma triple_updateFrameLabel:
  "triple session_invariant (pure_step updateFrameLabel) session_invariant E"
  by (rule triple_pure)
     (auto simp: updateFrameLabel_def session_invariant_def loaded_def tracklets_loaded_def
        tracklet_index_valid_def)

lemma triple_updateDatasetLabel:
  "triple session_invariant (pure_step (updateDatasetLabel env)) session_invariant E"
  by (rule triple_pure)
     (auto simp: updateDatasetLabel_def session_invariant_def loaded_def tracklets_loaded_def
        tracklet_index_valid_def)

lemma triple_hideTrackletInCenter:
  "triple session_invariant (when_step trackletInCenterVisible (pure_step hideTrackletInCenter))
     session_invariant E"
  by (rule triple_when_same, rule triple_pure)
     (auto simp: hideTrackletInCenter_def session_invariant_scene)

lemma newDataset_wf:
  assumes "wf_environment env"
  shows "triple (\<lambda>s. availableTracklets s = [] \<and> croppedTrackletPointClouds s = [] \<and> True)
           (run_steps [pure_step (\<lambda>s. s\<lparr>dataset_index := value\<rparr>),
                       pure_step (clampDatasetIndex env),
                       newDataset env,
                       pure_step clampFrameIndexAbove])
           cleared E"
proof -
  let ?n = "length (availableDatasets env)"
  let ?P = "\<lambda>s. availableTracklets s = [] \<and> croppedTrackletPointClouds s = [] \<and> True"
  let ?P1 = "\<lambda>s. availableTracklets s = [] \<and> croppedTrackletPointClouds s = []
               \<and> size_t_of_int (dataset_index s) < ?n"
  from assms have n: "0 < ?n" "?n < 2 ^ 31" by (simp_all add: wf_environment_def)
  have 1: "triple ?P (pure_step (\<lambda>s. s\<lparr>dataset_index := value\<rparr>)) ?P E"
    by (rule triple_pure) simp
  have 2: "triple ?P (pure_step (clampDatasetIndex env)) ?P1 E"
    using clamp_to_size_valid[OF n] by (intro triple_pure) (simp add: clampDatasetIndex_def)
  have 3: "triple ?P1 (newDataset env) cleared E"
  proof (rule tripleI)
    fix s :: KittiVisualizerQt
    assume p: "?P1 s"
    let ?number = "availableDatasets env ! size_t_of_int (dataset_index s)"
    from p have "?number \<in> set (availableDatasets env)" by simp
    with assms have "wf_dataset (openDataset env ?number)"
      by (simp add: wf_environment_def list_all_iff)
    with p show "case newDataset env s of Inl e \<Rightarrow> E e | Inr s' \<Rightarrow> cleared s'"
      by (simp add: newDataset_def vector_at_def cleared_def)
  qed
  have 4: "triple cleared (pure_step clampFrameIndexAbove) cleared E"
    by (rule triple_pure) (simp add: cleared_def clampFrameIndexAbove_def)
  show ?thesis
    by (intro triple_cons[OF 1] triple_cons[OF 2] triple_cons[OF 3] triple_cons[OF 4] triple_nil)
qed

lemma triple_newDatasetRequested:
  assumes "wf_environment env"
  shows "triple session_invariant (newDatasetRequested env value) session_invariant benign"
proof (rule tripleI)
  fix s assume inv: "session_invariant s"
  show "case newDatasetRequested env value s of Inl e \<Rightarrow> benign e | Inr s' \<Rightarrow> session_invariant s'"
  proof (cases "dataset_index s = value")
    case True
    with inv show ?thesis by (simp add: newDatasetRequested_def)
  next
    case False
    have h: "triple (\<lambda>s. True \<and> True) (run_steps hide_and_clear)
               (\<lambda>s. True \<and> availableTracklets s = []
                     \<and> croppedTrackletPointClouds s = [] \<and> True) benign"
      by (rule triple_hide_and_clear)
    have h': "triple session_invariant (run_steps hide_and_clear)
                (\<lambda>s. availableTracklets s = [] \<and> croppedTrackletPointClouds s = [] \<and> True) benign"
      by (rule triple_weaken[OF h]) simp_all
    have l: "triple (\<lambda>s. cleared s \<and> True) (run_steps (load_and_show env))
               (\<lambda>s. loaded s \<and> True) benign"
      by (rule triple_load_and_show)
    have l': "triple cleared (run_steps (load_and_show env)) loaded benign"
      by (rule triple_weaken[OF l]) simp_all
    have t: "triple loaded
               (run_steps [pure_step clampTrackletIndex,
                  when_step trackletInCenterVisible showTrackletInCenter,
                  pure_step (updateDatasetLabel env),
                  pure_step updateFrameLabel,
                  updateTrackletLabel]) session_invariant benign"
      by (intro triple_cons[OF triple_clampTrackletIndex] triple_cons[OF triple_showTrackletInCenter]
          triple_cons[OF triple_updateDatasetLabel] triple_cons[OF triple_updateFrameLabel]
          triple_cons[OF triple_updateTrackletLabel] triple_nil)
    have "triple session_invariant
            (run_steps (hide_and_clear
               @ [pure_step (\<lambda>s. s\<lparr>dataset_index := value\<rparr>),
                  pure_step (clampDatasetIndex env),
                  newDataset env,
                  pure_step clampFrameIndexAbove]
               @ load_and_show env
               @ [pure_step clampTrackletIndex,
                  when_step trackletInCenterVisible showTrackletInCenter,
                  pure_step (updateDatasetLabel env),
                  pure_step updateFrameLabel,
                  updateTrackletLabel]))
            session_invariant benign"
      by (intro triple_append[OF h'] triple_append[OF newDataset_wf[OF assms]]
          triple_append[OF l'] t)
    with inv False show ?thesis
      by (simp add: newDatasetRequested_def triple_def)
  qed
qed

lemma triple_newTrackletRequested:
  "triple session_invariant (newTrackletRequested value) session_invariant benign"
proof (rule tripleI)
  fix s assume inv: "session_invariant s"
  show "case newTrackletRequested value s of Inl e \<Rightarrow> benign e | Inr s' \<Rightarrow> session_invariant s'"
  proof (cases "tracklet_index s = value")
    case True
    with inv show ?thesis by (simp add: newTrackletRequested_def)
  next
    case False
    have 2: "triple session_invariant (pure_step (\<lambda>s. s\<lparr>tracklet_index := value\<rparr>)) loaded benign"
      by (rule triple_pure) (auto simp: session_invariant_def loaded_def tracklets_loaded_def)
    have "triple session_invariant
            (run_steps [when_step trackletInCenterVisible (pure_step hideTrackletInCenter),
               pure_step (\<lambda>s. s\<lparr>tracklet_index := value\<rparr>),
               pure_step clampTrackletIndex,
               when_step trackletInCenterVisible showTrackletInCenter,
               updateTrackletLabel])
            session_invariant benign"
      by (intro triple_cons[OF triple_hideTrackletInCenter] triple_cons[OF 2]
          triple_cons[OF triple_clampTrackletIndex] triple_cons[OF triple_showTrackletInCenter]
          triple_cons[OF triple_updateTrackletLabel] triple_nil)
    with inv False show ?thesis
      by (simp add: newTrackletRequested_def triple_def)
  qed
qed

lemma session_invariant_flags:
  "session_invariant s \<Longrightarrow> session_invariant (s\<lparr>pointCloudVisible := a\<rparr>)"
  "session_invariant s \<Longrightarrow> session_invariant (s\<lparr>trackletBoundingBoxesVisible := a\<rparr>)"
  "session_invariant s \<Longrightarrow> session_invariant (s\<lparr>trackletPointsVisible := a\<rparr>)"
  "session_invariant s \<Longrightarrow> session_invariant (s\<lparr>trackletInCenterVisible := a\<rparr>)"
  by (auto simp: session_invariant_def loaded_def tracklets_loaded_def tracklet_index_valid_def)

lemma triple_showFramePointCloudToggled:
  "triple session_invariant (showFramePointCloudToggled value) session_invariant benign"
  by (rule tripleI)
     (auto simp: showFramePointCloudToggled_def showPointCloud_def hidePointCloud_def Let_def
        session_invariant_def loaded_def tracklets_loaded_def tracklet_index_valid_def)

lemma triple_showTrackletBoundingBoxesToggled:
  "triple session_invariant (showTrackletBoundingBoxesToggled value) session_invariant benign"
proof (rule tripleI)
  fix s assume "session_invariant s"
  then have inv: "session_invariant (s\<lparr>trackletBoundingBoxesVisible := value\<rparr>)"
    by (rule session_invariant_flags)
  let ?s1 = "s\<lparr>trackletBoundingBoxesVisible := value\<rparr>"
  have "case showTrackletBoxes ?s1 of Inl e \<Rightarrow> benign e | Inr s' \<Rightarrow> session_invariant s'"
    using inv showTrackletBoxes_Inr[of ?s1] showTrackletBoxes_Inl[of ?s1]
      session_invariant_poses[OF inv] session_invariant_scene[OF inv]
    by (auto simp: benign_def split: sum.splits)
  moreover have "case hideTrackletBoxes ?s1 of Inl e \<Rightarrow> benign e | Inr s' \<Rightarrow> session_invariant s'"
    using inv hideTrackletBoxes_Inr[of ?s1] hideTrackletBoxes_Inl[of ?s1]
      session_invariant_scene[OF inv]
    by (auto simp: benign_def split: sum.splits)
  ultimately show "case showTrackletBoundingBoxesToggled value s of
      Inl e \<Rightarrow> benign e | Inr s' \<Rightarrow> session_invariant s'"
    by (cases "value") (simp_all add: showTrackletBoundingBoxesToggled_def Let_def)
qed

lemma triple_showTrackletPointCloudsToggled:
  "triple session_invariant (showTrackletPointCloudsToggled env value) session_invariant benign"
proof (rule tripleI)
  fix s assume "session_invariant s"
  then have inv: "session_invariant (s\<lparr>trackletPointsVisible := value\<rparr>)"
    by (rule session_invariant_flags)
  let ?s1 = "s\<lparr>trackletPointsVisible := value\<rparr>"
  have len: "length (croppedTrackletPointClouds ?s1) = length (availableTracklets ?s1)"
    using inv by (simp add: session_invariant_def loaded_def)
  have "case showTrackletPoints env ?s1 of Inl e \<Rightarrow> benign e | Inr s' \<Rightarrow> session_invariant s'"
    using inv showTrackletPoints_Inr[of env ?s1] showTrackletPoints_Inl[of env ?s1, OF _ len]
      session_invariant_scene[OF inv]
    by (auto simp: benign_def split: sum.splits)
  moreover have "case hideTrackletPoints ?s1 of Inl e \<Rightarrow> benign e | Inr s' \<Rightarrow> session_invariant s'"
    using inv hideTrackletPoints_Inr[of ?s1] hideTrackletPoints_Inl[of ?s1]
      session_invariant_scene[OF inv]
    by (auto simp: benign_def split: sum.splits)
  ultimately show "case showTrackletPointCloudsToggled env value s of
      Inl e \<Rightarrow> benign e | Inr s' \<Rightarrow> session_invariant s'"
    by (cases "value") (simp_all add: showTrackletPointCloudsToggled_def Let_def)
qed

lemma triple_showTrackletInCenterToggled:
  "triple session_invariant (showTrackletInCenterToggled value) session_invariant benign"
proof (rule tripleI)
  fix s assume "session_invariant s"
  then have inv: "session_invariant (s\<lparr>trackletInCenterVisible := value\<rparr>)"
    by (rule session_invariant_flags)
  let ?s1 = "s\<lparr>trackletInCenterVisible := value\<rparr>"
  have "case showTrackletInCenter ?s1 of Inl e \<Rightarrow> benign e | Inr s' \<Rightarrow> session_invariant s'"
    using inv showTrackletInCenter_Inr[of ?s1] showTrackletInCenter_Inl[of ?s1]
      session_invariant_poses[OF inv] session_invariant_scene[OF inv]
    by (auto simp: session_invariant_def split: sum.splits)
  moreover have "session_invariant (hideTrackletInCenter ?s1)"
    using session_invariant_scene[OF inv] by (simp add: hideTrackletInCenter_def inv)
  ultimately show "case showTrackletInCenterToggled value s of
      Inl e \<Rightarrow> benign e | Inr s' \<Rightarrow> session_invariant s'"
    by (cases "value") (simp_all add: showTrackletInCenterToggled_def Let_def)
qed

lemma triple_handle:
  assumes "wf_environment env"
  shows "triple session_invariant (handle env ev) session_invariant benign"
proof (cases ev)
  case (DatasetSlider v)
  then show ?thesis using triple_newDatasetRequested[OF assms, of v] by (simp add: triple_def)
next
  case (FrameSlider v)
  then show ?thesis using triple_newFrameRequested[of env v] by (simp add: triple_def)
next
  case (TrackletSlider v)
  then show ?thesis using triple_newTrackletRequested[of v] by (simp add: triple_def)
next
  case (FramePointCloudCheckBox v)
  then show ?thesis using triple_showFramePointCloudToggled[of v] by (simp add: triple_def)
next
  case (TrackletBoundingBoxesCheckBox v)
  then show ?thesis using triple_showTrackletBoundingBoxesToggled[of v] by (simp add: triple_def)
next
  case (TrackletPointCloudsCheckBox v)
  then show ?thesis using triple_showTrackletPointCloudsToggled[of env v] by (simp add: triple_def)
next
  case (TrackletInCenterCheckBox v)
  then show ?thesis using triple_showTrackletInCenterToggled[of v] by (simp add: triple_def)
next
  case (KeyboardEvent keyCode keyDown keySym)
  have "triple session_invariant (keyboardEventOccurred env keyCode keyDown keySym)
          session_invariant benign"
    using triple_newFrameRequested[of env]
    by (auto simp: triple_def keyboardEventOccurred_def loadNextFrame_def loadPreviousFrame_def)
  with KeyboardEvent show ?thesis by (simp add: triple_def)
qed

section \<open>Construction and the states of a session\<close>

lemma KittiVisualizerQt_new_invariant:
  assumes "wf_environment env"
  shows "case KittiVisualizerQt_new env index of
           Inl e \<Rightarrow> benign e \<or> e = out_of_range AvailableDatasets
         | Inr s \<Rightarrow> session_invariant s"
proof (cases "vector_at AvailableDatasets (availableDatasets env) (size_t_of_int index)")
  case (Inl e)
  then have "e = out_of_range AvailableDatasets" by (simp add: vector_at_def split: if_splits)
  with Inl show ?thesis by (simp add: KittiVisualizerQt_new_def)
next
  case (Inr number)
  let ?E = "\<lambda>e. benign e \<or> e = out_of_range AvailableDatasets"
  let ?s = "\<lparr>dataset_index = index, frame_index = 0, tracklet_index = 0,
            dataset = openDataset env number, pointCloud = [],
            availableTracklets = [], croppedTrackletPointClouds = [],
            pointCloudVisible = True, trackletBoundingBoxesVisible = True,
            trackletPointsVisible = True, trackletInCenterVisible = True,
            pclVisualizer = Map.empty,
            label_dataSet = [], label_frame = [], label_tracklet = [], imageWidget = []\<rparr>"
  from Inr have "number \<in> set (availableDatasets env)"
    by (auto simp: vector_at_def split: if_splits)
  with assms have wf: "wf_dataset (openDataset env number)"
    by (simp add: wf_environment_def list_all_iff)
  have l: "triple (\<lambda>s. cleared s \<and> tracklet_index s = 0) (run_steps (load_and_show env))
             (\<lambda>s. loaded s \<and> tracklet_index s = 0) benign"
    by (rule triple_load_and_show)
  have l': "triple (\<lambda>s. cleared s \<and> tracklet_index s = 0) (run_steps (load_and_show env))
              session_invariant benign"
    by (rule triple_weaken[OF l])
       (auto simp: session_invariant_def tracklet_index_valid_def size_t_of_int_def)
  have t: "triple (\<lambda>s. cleared s \<and> tracklet_index s = 0)
             (run_steps (load_and_show env
                @ [when_step trackletInCenterVisible showTrackletInCenter,
                   pure_step (updateDatasetLabel env),
                   pure_step updateFrameLabel,
                   updateTrackletLabel])) session_invariant benign"
    by (intro triple_append[OF l'] triple_cons[OF triple_showTrackletInCenter]
        triple_cons[OF triple_updateDatasetLabel] triple_cons[OF triple_updateFrameLabel]
        triple_cons[OF triple_updateTrackletLabel] triple_nil)
  have "cleared ?s \<and> tracklet_index ?s = 0" using wf by (simp add: cleared_def)
  with t have "case run_steps (load_and_show env
                @ [when_step trackletInCenterVisible showTrackletInCenter,
                   pure_step (updateDatasetLabel env),
                   pure_step updateFrameLabel,
                   updateTrackletLabel]) ?s of Inl e \<Rightarrow> benign e | Inr s' \<Rightarrow> session_invariant s'"
    unfolding triple_def by blast
  with Inr show ?thesis
    by (auto simp: KittiVisualizerQt_new_def split: sum.splits)
qed

lemma reachable_invariant:
  assumes "wf_environment env" and "reachable env s"
  shows "session_invariant s"
  using assms(2)
proof (induction rule: reachable.induct)
  case (constructed index s)
  with KittiVisualizerQt_new_invariant[OF assms(1), of index] show ?case by simp
next
  case (handled s ev s')
  with triple_handle[OF assms(1), of ev] show ?case by (auto dest: tripleD_Inr)
qed

lemma reachable_handle_benign:
  assumes "wf_environment env" and "reachable env s" and "handle env ev s = Inl e"
  shows "benign e"
  using triple_handle[OF assms(1), of ev] reachable_invariant[OF assms(1,2)] assms(3)
  by (auto dest: tripleD_Inl)

text \<open>Rules that evaluate the model on the example.\<close>

lemma for_loop_0: "for_loop i 0 body s = Inr s"
  by (simp add: for_loop_done)

lemma for_loop_Suc:
  "for_loop i (Suc n) body s =
     (if i < Suc n then (case body i s of Inl e \<Rightarrow> Inl e | Inr s' \<Rightarrow> for_loop (Suc i) (Suc n) body s')
      else Inr s)"
  by (simp add: for_loop_step for_loop_done)

lemma example_wf: "wf_environment example_environment"
  by (simp add: wf_environment_def example_environment_def wf_dataset_def example_dataset_def
      wf_tracklet_def example_tracklet_A_def example_tracklet_B_def word_sle_eq)

lemmas eval_defs =
  KittiVisualizerQt_new_def vector_at_def size_t_of_int_def load_and_show_def when_step_def pure_step_def
  loadPointCloud_def getPointCloud_def getNumberOfFrames_def int_of_size_t_def word_sle_eq word_sless_alt
  showPointCloud_def loadImageFile_def loadAvailableTracklets_def numberOfTracklets_def
  loadAvailableTracklets_body_def getTracklet_def lastFrame_def showTrackletBoxes_def showTrackletBoxes_body_def
  literal_plus_def loadTrackletPoints_def loadTrackletPoints_body_def getTrackletPointCloud_def
  showTrackletPoints_def showTrackletPoints_body_def showTrackletInCenter_def updateDatasetLabel_def
  updateFrameLabel_def updateTrackletLabel_def example_environment_def example_dataset_def example_tracklet_A_def example_tracklet_B_def
  for_loop_0 for_loop_Suc Let_def

lemma example_new: "\<exists>s. KittiVisualizerQt_new example_environment 0 = Inr s"
  by (simp add: eval_defs)

section \<open>The derived sequences stay aligned\<close>

lemma triple_any_error: "triple P f Q E \<Longrightarrow> triple P f Q any_error"
  unfolding triple_def any_error_def by (fastforce split: sum.splits)

lemma triple_Inr_only:
  "(\<And>s s'. P s \<Longrightarrow> f s = Inr s' \<Longrightarrow> Q s') \<Longrightarrow> triple P f Q any_error"
  unfolding triple_def any_error_def by (auto split: sum.splits)

lemma triple_load_and_show_aligned:
  "triple both_cleared (run_steps (load_and_show env)) derived_aligned any_error"
proof -
  let ?M = "\<lambda>s. tracklets_loaded s \<and> croppedTrackletPointClouds s = []"
  have 1: "triple both_cleared loadPointCloud both_cleared any_error"
    by (rule triple_Inr_only) (auto simp: both_cleared_def dest!: loadPointCloud_Inr)
  have 2: "triple both_cleared (when_step pointCloudVisible (pure_step showPointCloud))
             both_cleared any_error"
    by (rule triple_Inr_only)
       (auto simp: when_step_def pure_step_def showPointCloud_def both_cleared_def split: if_splits)
  have 3: "triple both_cleared (pure_step loadImageFile) both_cleared any_error"
    by (rule triple_pure) (simp add: loadImageFile_def both_cleared_def)
  have 4: "triple both_cleared loadAvailableTracklets ?M any_error"
    by (rule triple_Inr_only)
       (auto simp: loadAvailableTracklets_eq both_cleared_def tracklets_loaded_def)
  have 5: "triple ?M (when_step trackletBoundingBoxesVisible showTrackletBoxes) ?M any_error"
    by (rule triple_Inr_only)
       (auto simp: when_step_def tracklets_loaded_def split: if_splits dest!: showTrackletBoxes_Inr)
  have 6: "triple ?M loadTrackletPoints derived_aligned any_error"
    by (rule triple_Inr_only)
       (auto simp: derived_aligned_def tracklets_loaded_def dest!: loadTrackletPoints_Inr)
  have 7: "triple derived_aligned (when_step trackletPointsVisible (showTrackletPoints env))
             derived_aligned any_error"
    by (rule triple_Inr_only)
       (auto simp: when_step_def derived_aligned_def tracklets_loaded_def split: if_splits
             dest!: showTrackletPoints_Inr)
  show ?thesis
    unfolding load_and_show_def
    by (intro triple_cons[OF 1] triple_cons[OF 2] triple_cons[OF 3] triple_cons[OF 4]
        triple_cons[OF 5] triple_cons[OF 6] triple_cons[OF 7] triple_nil)
qed

lemma triple_hide_and_clear_both:
  "triple P (run_steps hide_and_clear) both_cleared any_error"
proof -
  have "triple (\<lambda>s. True \<and> True) (run_steps hide_and_clear)
          (\<lambda>s. True \<and> availableTracklets s = [] \<and> croppedTrackletPointClouds s = [] \<and> True)
          benign"
    by (rule triple_hide_and_clear)
  then have "triple P (run_steps hide_and_clear) both_cleared benign"
    by (rule triple_weaken) (simp_all add: both_cleared_def)
  then show ?thesis by (rule triple_any_error)
qed

lemma keepsD: "keeps G f \<Longrightarrow> f s = Inr s' \<Longrightarrow> G s' = G s"
  by (simp add: keeps_def)

lemma keeps_pure: "(\<And>s. G (f s) = G s) \<Longrightarrow> keeps G (pure_step f)"
  by (auto simp: keeps_def pure_step_def)

lemma keeps_when: "keeps G f \<Longrightarrow> keeps G (when_step c f)"
  by (auto simp: keeps_def when_step_def split: if_splits)

lemma keeps_scene:
  "(\<And>s s'. f s = Inr s' \<Longrightarrow> \<exists>sc. s' = s\<lparr>pclVisualizer := sc\<rparr>)
   \<Longrightarrow> (\<And>s sc. G (s\<lparr>pclVisualizer := sc\<rparr>) = G s) \<Longrightarrow> keeps G f"
  unfolding keeps_def by metis

lemma keeps_run_steps: "list_all (keeps G) steps \<Longrightarrow> keeps G (run_steps steps)"
proof (induction steps)
  case Nil
  then show ?case by (simp add: keeps_def)
next
  case (Cons f fs)
  then have f: "keeps G f" and fs: "keeps G (run_steps fs)" by simp_all
  show ?case
    unfolding keeps_def
  proof (intro allI impI)
    fix s s' assume "run_steps (f # fs) s = Inr s'"
    then obtain t where "f s = Inr t" "run_steps fs t = Inr s'"
      by (auto split: sum.splits)
    with f fs show "G s' = G s" by (simp add: keeps_def)
  qed
qed

lemma keeps_scene_steps:
  assumes "\<And>s sc. G (s\<lparr>pclVisualizer := sc\<rparr>) = G s"
  shows "keeps G showTrackletBoxes" "keeps G hideTrackletBoxes"
    "keeps G (showTrackletPoints env)" "keeps G hideTrackletPoints"
    "keeps G showTrackletInCenter"
    "keeps G (pure_step hideTrackletInCenter)" "keeps G (pure_step showPointCloud)"
    "keeps G (pure_step hidePointCloud)"
proof -
  show "keeps G showTrackletBoxes"
    by (rule keeps_scene[OF showTrackletBoxes_Inr assms])
  show "keeps G hideTrackletBoxes"
    by (rule keeps_scene[OF hideTrackletBoxes_Inr assms])
  show "keeps G (showTrackletPoints env)"
    by (rule keeps_scene[OF showTrackletPoints_Inr assms])
  show "keeps G hideTrackletPoints"
    by (rule keeps_scene[OF hideTrackletPoints_Inr assms])
  show "keeps G showTrackletInCenter"
    by (rule keeps_scene[OF showTrackletInCenter_Inr assms])
  show "keeps G (pure_step hideTrackletInCenter)"
    by (rule keeps_pure) (simp add: hideTrackletInCenter_def assms)
  show "keeps G (pure_step showPointCloud)"
    by (rule keeps_pure) (simp add: showPointCloud_def assms)
  show "keeps G (pure_step hidePointCloud)"
    by (rule keeps_pure) (simp add: hidePointCloud_def assms)
qed

lemma keeps_updateTrackletLabel:
  "(\<And>s text. G (s\<lparr>label_tracklet := text\<rparr>) = G s) \<Longrightarrow> keeps G updateTrackletLabel"
  unfolding keeps_def by (metis updateTrackletLabel_Inr)

lemma keeps_derived_steps:
  "keeps derived_of showTrackletBoxes" "keeps derived_of hideTrackletBoxes"
  "keeps derived_of (showTrackletPoints env)" "keeps derived_of hideTrackletPoints"
  "keeps derived_of showTrackletInCenter"
  "keeps derived_of (pure_step hideTrackletInCenter)" "keeps derived_of (pure_step showPointCloud)"
  "keeps derived_of (pure_step hidePointCloud)"
  "keeps derived_of updateTrackletLabel"
  "keeps derived_of (pure_step clampTrackletIndex)"
  "keeps derived_of (pure_step updateFrameLabel)"
  "keeps derived_of (pure_step (updateDatasetLabel env))"
  "keeps derived_of (pure_step (\<lambda>s. s\<lparr>tracklet_index := value\<rparr>))"
  by (simp_all add: keeps_scene_steps keeps_updateTrackletLabel keeps_pure derived_of_def
      clampTrackletIndex_def updateFrameLabel_def updateDatasetLabel_def)

lemma keeps_derived_triple:
  "keeps derived_of f \<Longrightarrow> triple derived_aligned f derived_aligned any_error"
  by (rule triple_Inr_only)
     (auto simp: keeps_def derived_of_def derived_aligned_def tracklets_loaded_def)

lemma triple_newFrameRequested_aligned:
  "triple derived_aligned (newFrameRequested env value) derived_aligned any_error"
proof (rule tripleI)
  fix s assume inv: "derived_aligned s"
  show "case newFrameRequested env value s of Inl e \<Rightarrow> any_error e | Inr s' \<Rightarrow> derived_aligned s'"
  proof (cases "frame_index s = value")
    case True
    with inv show ?thesis by (simp add: newFrameRequested_def)
  next
    case False
    have f: "triple both_cleared
               (run_steps [pure_step (\<lambda>s. s\<lparr>frame_index := value\<rparr>),
                           pure_step clampFrameIndexAbove, pure_step clampFrameIndexBelow])
               both_cleared any_error"
      by (intro triple_cons[where R = both_cleared] triple_nil triple_pure)
         (simp_all add: both_cleared_def clampFrameIndexAbove_def clampFrameIndexBelow_def)
    have t: "triple derived_aligned
               (run_steps [pure_step clampTrackletIndex,
                  when_step trackletInCenterVisible showTrackletInCenter,
                  pure_step updateFrameLabel,
                  updateTrackletLabel]) derived_aligned any_error"
      by (rule keeps_derived_triple, rule keeps_run_steps)
         (simp add: keeps_derived_steps keeps_when)
    have "triple derived_aligned
            (run_steps (hide_and_clear
               @ [pure_step (\<lambda>s. s\<lparr>frame_index := value\<rparr>),
                  pure_step clampFrameIndexAbove, pure_step clampFrameIndexBelow]
               @ load_and_show env
               @ [pure_step clampTrackletIndex,
                  when_step trackletInCenterVisible showTrackletInCenter,
                  pure_step updateFrameLabel,
                  updateTrackletLabel]))
            derived_aligned any_error"
      by (intro triple_append[OF triple_hide_and_clear_both] triple_append[OF f]
          triple_append[OF triple_load_and_show_aligned] t)
    with inv False show ?thesis
      by (simp add: newFrameRequested_def triple_def)
  qed
qed

lemma triple_newDatasetRequested_aligned:
  "triple derived_aligned (newDatasetRequested env value) derived_aligned any_error"
proof (rule tripleI)
  fix s assume inv: "derived_aligned s"
  show "case newDatasetRequested env value s of Inl e \<Rightarrow> any_error e | Inr s' \<Rightarrow> derived_aligned s'"
  proof (cases "dataset_index s = value")
    case True
    with inv show ?thesis by (simp add: newDatasetRequested_def)
  next
    case False
    have d: "triple both_cleared (newDataset env) both_cleared any_error"
      by (rule triple_Inr_only)
         (auto simp: newDataset_def both_cleared_def split: sum.splits)
    have f: "triple both_cleared
               (run_steps [pure_step (\<lambda>s. s\<lparr>dataset_index := value\<rparr>),
                           pure_step (clampDatasetIndex env),
                           newDataset env,
                           pure_step clampFrameIndexAbove])
               both_cleared any_error"
      by (intro triple_cons[where R = both_cleared] triple_nil triple_pure d)
         (simp_all add: both_cleared_def clampFrameIndexAbove_def clampDatasetIndex_def)
    have t: "triple derived_aligned
               (run_steps [pure_step clampTrackletIndex,
                  when_step trackletInCenterVisible showTrackletInCenter,
                  pure_step (updateDatasetLabel env),
                  pure_step updateFrameLabel,
                  updateTrackletLabel]) derived_aligned any_error"
      by (rule keeps_derived_triple, rule keeps_run_steps)
         (simp add: keeps_derived_steps keeps_when)
    have "triple derived_aligned
            (run_steps (hide_and_clear
               @ [pure_step (\<lambda>s. s\<lparr>dataset_index := value\<rparr>),
                  pure_step (clampDatasetIndex env),
                  newDataset env,
                  pure_step clampFrameIndexAbove]
               @ load_and_show env
               @ [pure_step clampTrackletIndex,
                  when_step trackletInCenterVisible showTrackletInCenter,
                  pure_step (updateDatasetLabel env),
                  pure_step updateFrameLabel,
                  updateTrackletLabel]))
            derived_aligned any_error"
      by (intro triple_append[OF triple_hide_and_clear_both] triple_append[OF f]
          triple_append[OF triple_load_and_show_aligned] t)
    with inv False show ?thesis
      by (simp add: newDatasetRequested_def triple_def)
  qed
qed

lemma keeps_derived_newTrackletRequested: "keeps derived_of (newTrackletRequested value)"
proof -
  have "keeps derived_of (run_steps
          [when_step trackletInCenterVisible (pure_step hideTrackletInCenter),
           pure_step (\<lambda>s. s\<lparr>tracklet_index := value\<rparr>),
           pure_step clampTrackletIndex,
           when_step trackletInCenterVisible showTrackletInCenter,
           updateTrackletLabel])"
    by (rule keeps_run_steps) (simp add: keeps_derived_steps keeps_when)
  then show ?thesis
    by (auto simp: keeps_def newTrackletRequested_def split: if_splits)
qed

lemma keeps_derived_toggles:
  "keeps derived_of (showFramePointCloudToggled value)"
  "keeps derived_of (showTrackletBoundingBoxesToggled value)"
  "keeps derived_of (showTrackletPointCloudsToggled env value)"
  "keeps derived_of (showTrackletInCenterToggled value)"
  unfolding keeps_def derived_of_def showFramePointCloudToggled_def showTrackletBoundingBoxesToggled_def
    showTrackletPointCloudsToggled_def showTrackletInCenterToggled_def Let_def
  by (auto simp: showPointCloud_def hidePointCloud_def hideTrackletInCenter_def split: if_splits
        dest!: showTrackletBoxes_Inr hideTrackletBoxes_Inr showTrackletPoints_Inr
          hideTrackletPoints_Inr showTrackletInCenter_Inr)

lemma triple_handle_aligned: "triple derived_aligned (handle env ev) derived_aligned any_error"
proof (cases ev)
  case (DatasetSlider v)
  then show ?thesis using triple_newDatasetRequested_aligned[of env v] by (simp add: triple_def)
next
  case (FrameSlider v)
  then show ?thesis using triple_newFrameRequested_aligned[of env v] by (simp add: triple_def)
next
  case (TrackletSlider v)
  then show ?thesis
    using keeps_derived_triple[OF keeps_derived_newTrackletRequested, of v]
    by (simp add: triple_def)
next
  case (FramePointCloudCheckBox v)
  then show ?thesis
    using keeps_derived_triple[OF keeps_derived_toggles(1), of v] by (simp add: triple_def)
next
  case (TrackletBoundingBoxesCheckBox v)
  then show ?thesis
    using keeps_derived_triple[OF keeps_derived_toggles(2), of v] by (simp add: triple_def)
next
  case (TrackletPointCloudsCheckBox v)
  then show ?thesis
    using keeps_derived_triple[OF keeps_derived_toggles(3), of env v] by (simp add: triple_def)
next
  case (TrackletInCenterCheckBox v)
  then show ?thesis
    using keeps_derived_triple[OF keeps_derived_toggles(4), of v] by (simp add: triple_def)
next
  case (KeyboardEvent keyCode keyDown keySym)
  have "triple derived_aligned (keyboardEventOccurred env keyCode keyDown keySym)
          derived_aligned any_error"
    using triple_newFrameRequested_aligned[of env]
    by (auto simp: triple_def keyboardEventOccurred_def loadNextFrame_def loadPreviousFrame_def)
  with KeyboardEvent show ?thesis by (simp add: triple_def)
qed

lemma KittiVisualizerQt_new_aligned:
  "KittiVisualizerQt_new env index = Inr s \<Longrightarrow> derived_aligned s"
proof -
  assume new: "KittiVisualizerQt_new env index = Inr s"
  then obtain number where
    run: "run_steps (load_and_show env
            @ [when_step trackletInCenterVisible showTrackletInCenter,
               pure_step (updateDatasetLabel env),
               pure_step updateFrameLabel,
               updateTrackletLabel])
           \<lparr>dataset_index = index, frame_index = 0, tracklet_index = 0,
            dataset = openDataset env number, pointCloud = [],
            availableTracklets = [], croppedTrackletPointClouds = [],
            pointCloudVisible = True, trackletBoundingBoxesVisible = True,
            trackletPointsVisible = True, trackletInCenterVisible = True,
            pclVisualizer = Map.empty,
            label_dataSet = [], label_frame = [], label_tracklet = [], imageWidget = []\<rparr> = Inr s"
    by (auto simp: KittiVisualizerQt_new_def split: sum.splits)
  have t: "triple derived_aligned
             (run_steps [when_step trackletInCenterVisible showTrackletInCenter,
                pure_step (updateDatasetLabel env),
                pure_step updateFrameLabel,
                updateTrackletLabel]) derived_aligned any_error"
    by (rule keeps_derived_triple, rule keeps_run_steps)
       (simp add: keeps_derived_steps keeps_when)
  have "triple both_cleared
          (run_steps (load_and_show env
            @ [when_step trackletInCenterVisible showTrackletInCenter,
               pure_step (updateDatasetLabel env),
               pure_step updateFrameLabel,
               updateTrackletLabel])) derived_aligned any_error"
    by (intro triple_append[OF triple_load_and_show_aligned] t)
  from tripleD_Inr[OF this _ run] show ?thesis by (simp add: both_cleared_def)
qed

lemma reachable_aligned: "reachable env s \<Longrightarrow> derived_aligned s"
proof (induction rule: reachable.induct)
  case (constructed index s)
  then show ?case by (rule KittiVisualizerQt_new_aligned)
next
  case (handled s ev s')
  with triple_handle_aligned[of env ev] show ?case by (auto dest: tripleD_Inr)
qed

section \<open>The example session, rotations and the visibility flags\<close>

lemmas eval_more =
  eval_defs handle.simps newTrackletRequested_def newFrameRequested_def newDatasetRequested_def
  hide_and_clear_def clamp_to_size_def size_minus_1_def hideTrackletInCenter_def hideTrackletPoints_def
  hideTrackletPoints_body_def clearTrackletPoints_def hideTrackletBoxes_def hideTrackletBoxes_body_def
  clearAvailableTracklets_def hidePointCloud_def clampFrameIndexAbove_def clampFrameIndexBelow_def
  clampTrackletIndex_def clampDatasetIndex_def newDataset_def

lemma example_session:
  "case KittiVisualizerQt_new example_environment 0 of
     Inl e \<Rightarrow> False
   | Inr s0 \<Rightarrow>
      frame_index s0 = 0 \<and> dataset s0 = example_dataset
      \<and> (case handle example_environment (TrackletSlider 2) s0 of
            Inl e \<Rightarrow> False
          | Inr s1 \<Rightarrow>
             tracklet_index s1 = 1
             \<and> (case handle example_environment (FrameSlider 2) s1 of
                   Inl e \<Rightarrow> False
                 | Inr s2 \<Rightarrow>
                    frame_index s2 = 2 \<and> dataset s2 = example_dataset
                    \<and> availableTracklets s2 = [example_tracklet_B] \<and> tracklet_index s2 = 0))"
  by (simp add: eval_more)

lemma example_session_states:
  obtains s0 s1 s2 where
    "KittiVisualizerQt_new example_environment 0 = Inr s0"
    "handle example_environment (TrackletSlider 2) s0 = Inr s1"
    "handle example_environment (FrameSlider 2) s1 = Inr s2"
  using example_session by (auto split: sum.splits)

lemma example_reachable:
  obtains s0 s1 s2 where
    "KittiVisualizerQt_new example_environment 0 = Inr s0"
    "handle example_environment (TrackletSlider 2) s0 = Inr s1"
    "handle example_environment (FrameSlider 2) s1 = Inr s2"
    "reachable example_environment s0" "reachable example_environment s1"
    "reachable example_environment s2"
proof -
  obtain s0 s1 s2 where e:
    "KittiVisualizerQt_new example_environment 0 = Inr s0"
    "handle example_environment (TrackletSlider 2) s0 = Inr s1"
    "handle example_environment (FrameSlider 2) s1 = Inr s2"
    by (rule example_session_states)
  have r0: "reachable example_environment s0" using e(1) by (rule reachable.constructed)
  have r1: "reachable example_environment s1" using r0 e(2) by (rule reachable.handled)
  have r2: "reachable example_environment s2" using r1 e(3) by (rule reachable.handled)
  from e r0 r1 r2 show thesis by (rule that)
qed

lemma rotateVector_UnitZ:
  "rotateVector (AngleAxisf a UnitZ) (x, y, z) = (cos a * x - sin a * y, sin a * x + cos a * y, z)"
proof -
  have c: "1 - 2 * sin (a / 2) * sin (a / 2) = cos a"
    using cos_double_sin[of "a / 2"] by (simp add: power2_eq_square)
  have s: "2 * sin (a / 2) * cos (a / 2) = sin a"
    using sin_double[of "a / 2"] by simp
  show ?thesis
    by (simp add: UnitZ_def c s)
qed

lemma rotateVector_Identity: "rotateVector Identity v = v"
  by (cases v) (simp add: Identity_def)

lemma flags_of_scene: "flags_of (s\<lparr>pclVisualizer := sc\<rparr>) = flags_of s"
  by (simp add: flags_of_def)

lemma keeps_flags_steps:
  "keeps flags_of loadPointCloud" "keeps flags_of loadAvailableTracklets"
  "keeps flags_of loadTrackletPoints" "keeps flags_of updateTrackletLabel"
  "keeps flags_of (newDataset env)"
  "keeps flags_of (pure_step loadImageFile)" "keeps flags_of (pure_step clearTrackletPoints)"
  "keeps flags_of (pure_step clearAvailableTracklets)"
  "keeps flags_of (pure_step clampFrameIndexAbove)" "keeps flags_of (pure_step clampFrameIndexBelow)"
  "keeps flags_of (pure_step clampTrackletIndex)" "keeps flags_of (pure_step (clampDatasetIndex env))"
  "keeps flags_of (pure_step updateFrameLabel)" "keeps flags_of (pure_step (updateDatasetLabel env))"
  "keeps flags_of (pure_step (\<lambda>s. s\<lparr>frame_index := value\<rparr>))"
proof -
  show "keeps flags_of loadPointCloud"
    by (auto simp: keeps_def flags_of_def dest!: loadPointCloud_Inr)
  show "keeps flags_of loadAvailableTracklets"
    by (auto simp: keeps_def flags_of_def loadAvailableTracklets_eq)
  show "keeps flags_of loadTrackletPoints"
    by (auto simp: keeps_def flags_of_def dest!: loadTrackletPoints_Inr)
  show "keeps flags_of updateTrackletLabel"
    by (rule keeps_updateTrackletLabel) (simp add: flags_of_def)
  show "keeps flags_of (newDataset env)"
    by (auto simp: keeps_def flags_of_def newDataset_def split: sum.splits)
qed (rule keeps_pure,
     simp add: flags_of_def loadImageFile_def clearTrackletPoints_def clearAvailableTracklets_def
       clampFrameIndexAbove_def clampFrameIndexBelow_def clampTrackletIndex_def
       clampDatasetIndex_def updateFrameLabel_def updateDatasetLabel_def)+

lemma keeps_flags_newFrameRequested: "keeps flags_of (newFrameRequested env value)"
proof -
  have "keeps flags_of (run_steps (hide_and_clear
          @ [pure_step (\<lambda>s. s\<lparr>frame_index := value\<rparr>),
             pure_step clampFrameIndexAbove, pure_step clampFrameIndexBelow]
          @ load_and_show env
          @ [pure_step clampTrackletIndex,
             when_step trackletInCenterVisible showTrackletInCenter,
             pure_step updateFrameLabel,
             updateTrackletLabel]))"
    by (rule keeps_run_steps)
       (simp add: hide_and_clear_def load_and_show_def keeps_when keeps_flags_steps
          keeps_scene_steps[of flags_of, OF flags_of_scene])
  then show ?thesis
    by (auto simp: keeps_def newFrameRequested_def split: if_splits)
qed

lemma keeps_flags_frame_requests:
  "keeps flags_of (run_steps (map (newFrameRequested env) values))"
  by (rule keeps_run_steps) (simp add: list_all_iff keeps_flags_newFrameRequested)

lemma example_toggles:
  "case showTrackletBoundingBoxesToggled True example_state of
     Inl e \<Rightarrow> False
   | Inr s1 \<Rightarrow>
      (case showTrackletPointCloudsToggled example_environment False s1 of
         Inl e \<Rightarrow> False
       | Inr s2 \<Rightarrow>
          (case run_steps (map (newFrameRequested example_environment) [1, 2, 0]) s2 of
             Inl e \<Rightarrow> False
           | Inr s3 \<Rightarrow> frame_index s3 = 0))"
  by (simp add: eval_more example_state_def showTrackletBoundingBoxesToggled_def
      showTrackletPointCloudsToggled_def)

text \<open>Within the literal, different positions give different identifiers.\<close>

lemma literal_plus_distinct:
  assumes "i \<le> length lit" and "j \<le> length lit" and "literal_plus lit i = literal_plus lit j"
  shows "i = j"
proof -
  from assms have "drop i lit = drop j lit" by (simp add: literal_plus_def)
  then have "length (drop i lit) = length (drop j lit)" by simp
  with assms(1,2) show ?thesis by simp
qed

lemma benign_not_out_of_range: "benign e \<Longrightarrow> e \<noteq> out_of_range name"
  by (auto simp: benign_def)

lemma KittiVisualizerQt_new_errors:
  assumes "wf_environment env" and "KittiVisualizerQt_new env index = Inl e"
  shows "e = FrameReadError \<or> e = UndefinedBehaviour \<or> e = out_of_range AvailableDatasets"
  using KittiVisualizerQt_new_invariant[OF assms(1), of index] assms(2)
  by (auto simp: benign_def)

section \<open>What the tracklet layers write to the scene\<close>

lemma restrict_upd_inside: "k \<in> A \<Longrightarrow> (m(k := v)) |` (- A) = m |` (- A)"
  by (rule ext) (simp add: restrict_map_def)

lemma viewer_ids_Suc: "viewer_ids lit (Suc k) = insert (drop k lit) (viewer_ids lit k)"
  by (auto simp: viewer_ids_def less_Suc_eq)

lemma drop_distinct: "i < k \<Longrightarrow> k \<le> length lit \<Longrightarrow> drop i lit \<noteq> drop k lit"
proof
  assume "i < k" "k \<le> length lit" "drop i lit = drop k lit"
  then have "length (drop i lit) = length (drop k lit)" by simp
  with \<open>i < k\<close> \<open>k \<le> length lit\<close> show False by simp
qed

text \<open>A loop whose body writes the scene at the identifier of its position.\<close>

lemma scene_loop_entries:
  assumes body: "\<And>k t t'. k < n \<Longrightarrow> t = s\<lparr>pclVisualizer := pclVisualizer t\<rparr> \<Longrightarrow>
            body k t = Inr t' \<Longrightarrow>
            k \<le> length lit
            \<and> t' = t\<lparr>pclVisualizer := (pclVisualizer t)(drop k lit := entry k)\<rparr>"
    and run: "for_loop 0 n body s = Inr s'"
  shows "s' = s\<lparr>pclVisualizer := pclVisualizer s'\<rparr>
         \<and> pclVisualizer s' |` (- viewer_ids lit n) = pclVisualizer s |` (- viewer_ids lit n)
         \<and> (\<forall>i<n. pclVisualizer s' (drop i lit) = entry i)"
proof -
  let ?I = "\<lambda>k t. t = s\<lparr>pclVisualizer := pclVisualizer t\<rparr>
               \<and> pclVisualizer t |` (- viewer_ids lit k) = pclVisualizer s |` (- viewer_ids lit k)
               \<and> (\<forall>i<k. pclVisualizer t (drop i lit) = entry i)"
  have "?I n s'"
  proof (rule for_loop_Inr[where I = ?I, OF run])
    show "?I 0 s" by (simp add: viewer_ids_def)
  next
    fix k t t'
    assume k: "k < n" and I: "?I k t" and b: "body k t = Inr t'"
    from I have ts: "t = s\<lparr>pclVisualizer := pclVisualizer t\<rparr>" by simp
    from body[OF k ts b] have len: "k \<le> length lit"
      and t': "t' = t\<lparr>pclVisualizer := (pclVisualizer t)(drop k lit := entry k)\<rparr>" by simp_all
    have 1: "t' = s\<lparr>pclVisualizer := pclVisualizer t'\<rparr>"
      by (subst t', subst ts, simp add: t')
    have "pclVisualizer t' |` (- viewer_ids lit (Suc k))
            = pclVisualizer t |` (- viewer_ids lit (Suc k))"
      by (simp add: t' restrict_upd_inside viewer_ids_Suc)
    also have "\<dots> = (pclVisualizer t |` (- viewer_ids lit k)) |` (- {drop k lit})"
      by (simp add: viewer_ids_Suc) (metis Compl_insert Diff_eq inf_commute)
    also have "\<dots> = (pclVisualizer s |` (- viewer_ids lit k)) |` (- {drop k lit})"
      using I by simp
    also have "\<dots> = pclVisualizer s |` (- viewer_ids lit (Suc k))"
      by (simp add: viewer_ids_Suc) (metis Compl_insert Diff_eq inf_commute)
    finally have 2: "pclVisualizer t' |` (- viewer_ids lit (Suc k))
            = pclVisualizer s |` (- viewer_ids lit (Suc k))" .
    have 3: "\<forall>i<Suc k. pclVisualizer t' (drop i lit) = entry i"
    proof (intro allI impI)
      fix i assume "i < Suc k"
      then consider "i = k" | "i < k" by linarith
      then show "pclVisualizer t' (drop i lit) = entry i"
      proof cases
        case 1
        then show ?thesis by (simp add: t')
      next
        case 2
        from 2 len have "drop i lit \<noteq> drop k lit" by (rule drop_distinct)
        with 2 I show ?thesis by (simp add: t')
      qed
    qed
    from 1 2 3 show "?I (Suc k) t'" by simp
  qed simp
  then show ?thesis by simp
qed

lemma showTrackletBoxes_scene:
  assumes "showTrackletBoxes s = Inr s'"
  shows "s' = s\<lparr>pclVisualizer := pclVisualizer s'\<rparr>
     \<and> pclVisualizer s' |` (- viewer_ids ''tracklet_box_'' (length (availableTracklets s)))
         = pclVisualizer s |` (- viewer_ids ''tracklet_box_'' (length (availableTracklets s)))
     \<and> (\<forall>i<length (availableTracklets s).
           pclVisualizer s' (drop i ''tracklet_box_'') =
             Some (let tracklet = availableTracklets s ! i;
                       tpose = poses tracklet ! size_t_of_int (frame_index s - first_frame tracklet)
                   in CubeActor (tx tpose, ty tpose, tz tpose + tracklet_h tracklet / 2)
                        (AngleAxisf (rz tpose) UnitZ) (tracklet_l tracklet) (tracklet_w tracklet)
                        (tracklet_h tracklet)))"
proof (rule scene_loop_entries[OF _ assms[unfolded showTrackletBoxes_def]])
  fix k t t'
  assume "k < length (availableTracklets s)" and ts: "t = s\<lparr>pclVisualizer := pclVisualizer t\<rparr>"
    and b: "showTrackletBoxes_body k t = Inr t'"
  have av: "availableTracklets t = availableTracklets s" and fr: "frame_index t = frame_index s"
    by (subst ts, simp)+
  from b show "k \<le> length ''tracklet_box_''
      \<and> t' = t\<lparr>pclVisualizer := (pclVisualizer t)(drop k ''tracklet_box_'' :=
            Some (let tracklet = availableTracklets s ! k;
                       tpose = poses tracklet ! size_t_of_int (frame_index s - first_frame tracklet)
                   in CubeActor (tx tpose, ty tpose, tz tpose + tracklet_h tracklet / 2)
                        (AngleAxisf (rz tpose) UnitZ) (tracklet_l tracklet) (tracklet_w tracklet)
                        (tracklet_h tracklet)))\<rparr>"
    unfolding showTrackletBoxes_body_def av fr
    by (auto simp: vector_at_def literal_plus_def addCube_def Let_def split: if_splits)
qed

lemma hideTrackletBoxes_scene:
  assumes "hideTrackletBoxes s = Inr s'"
  shows "s' = s\<lparr>pclVisualizer := pclVisualizer s'\<rparr>
     \<and> pclVisualizer s' |` (- viewer_ids ''tracklet_box_'' (length (availableTracklets s)))
         = pclVisualizer s |` (- viewer_ids ''tracklet_box_'' (length (availableTracklets s)))
     \<and> (\<forall>i<length (availableTracklets s). pclVisualizer s' (drop i ''tracklet_box_'') = None)"
proof (rule scene_loop_entries[OF _ assms[unfolded hideTrackletBoxes_def]])
  fix k t t'
  assume b: "hideTrackletBoxes_body k t = Inr t'"
  then show "k \<le> length ''tracklet_box_''
      \<and> t' = t\<lparr>pclVisualizer := (pclVisualizer t)(drop k ''tracklet_box_'' := None)\<rparr>"
    by (auto simp: hideTrackletBoxes_body_def literal_plus_def removeShape_def split: if_splits)
qed

lemma showTrackletPoints_scene:
  assumes "showTrackletPoints env s = Inr s'"
  shows "s' = s\<lparr>pclVisualizer := pclVisualizer s'\<rparr>
     \<and> pclVisualizer s' |` (- viewer_ids ''cropped_tracklet_'' (length (availableTracklets s)))
         = pclVisualizer s |` (- viewer_ids ''cropped_tracklet_'' (length (availableTracklets s)))
     \<and> (\<forall>i<length (availableTracklets s).
           pclVisualizer s' (drop i ''cropped_tracklet_'') =
             Some (CloudActor (croppedTrackletPointClouds s ! i)
                     (getTrackletColor env (availableTracklets s ! i))))"
proof (rule scene_loop_entries[OF _ assms[unfolded showTrackletPoints_def]])
  fix k t t'
  assume "k < length (availableTracklets s)" and ts: "t = s\<lparr>pclVisualizer := pclVisualizer t\<rparr>"
    and b: "showTrackletPoints_body env k t = Inr t'"
  have av: "availableTracklets t = availableTracklets s"
    and cr: "croppedTrackletPointClouds t = croppedTrackletPointClouds s"
    by (subst ts, simp)+
  from b show "k \<le> length ''cropped_tracklet_''
      \<and> t' = t\<lparr>pclVisualizer := (pclVisualizer t)(drop k ''cropped_tracklet_'' :=
            Some (CloudActor (croppedTrackletPointClouds s ! k)
                     (getTrackletColor env (availableTracklets s ! k))))\<rparr>"
    unfolding showTrackletPoints_body_def av cr
    by (auto simp: vector_at_def literal_plus_def addPointCloud_def split: if_splits)
qed

lemma hideTrackletPoints_scene:
  assumes "hideTrackletPoints s = Inr s'"
  shows "s' = s\<lparr>pclVisualizer := pclVisualizer s'\<rparr>
     \<and> pclVisualizer s' |` (- viewer_ids ''cropped_tracklet_'' (length (availableTracklets s)))
         = pclVisualizer s |` (- viewer_ids ''cropped_tracklet_'' (length (availableTracklets s)))
     \<and> (\<forall>i<length (availableTracklets s). pclVisualizer s' (drop i ''cropped_tracklet_'') = None)"
proof (rule scene_loop_entries[OF _ assms[unfolded hideTrackletPoints_def]])
  fix k t t'
  assume b: "hideTrackletPoints_body k t = Inr t'"
  then show "k \<le> length ''cropped_tracklet_''
      \<and> t' = t\<lparr>pclVisualizer := (pclVisualizer t)(drop k ''cropped_tracklet_'' := None)\<rparr>"
    by (auto simp: hideTrackletPoints_body_def literal_plus_def removeShape_def split: if_splits)
qed


lemma viewer_ids_0: "viewer_ids lit 0 = {}"
  by (simp add: viewer_ids_def)

lemma centre_state_shown:
  "\<exists>s'. showTrackletInCenter centre_state = Inr s'"
  by (simp add: centre_state_def example_state_def showTrackletInCenter_def vector_at_def
      size_t_of_int_def getTrackletPointCloud_def example_tracklet_A_def)

section \<open>The claims\<close>

text \<open>Claim C1.  The rebuild of the Active Tracklet Set: run on a cleared
  \<open>availableTracklets\<close>, \<open>loadAvailableTracklets\<close> returns, and leaves exactly the
  tracklets \<open>t\<close> of the data set with \<open>t.first_frame <= frame_index <= t.lastFrame()\<close>, in
  the order in which the data set enumerates them; nothing else of the state changes.
  In every state of a session the Active Tracklet Set is this list for the current data
  set and frame.\<close>

theorem loadAvailableTracklets_rebuild:
  "(availableTracklets s = [] \<longrightarrow>
      loadAvailableTracklets s =
        Inr (s\<lparr>availableTracklets :=
                filter (\<lambda>t. first_frame t \<le>s frame_index s \<and> frame_index s \<le>s lastFrame t)
                  (tracklets (dataset s))\<rparr>))
   \<and> (reachable env r \<longrightarrow>
        availableTracklets r =
          filter (\<lambda>t. first_frame t \<le>s frame_index r \<and> frame_index r \<le>s lastFrame t)
            (tracklets (dataset r)))"
proof (intro conjI impI)
  assume empty: "availableTracklets s = []"
  have "loadAvailableTracklets s =
          Inr (s\<lparr>availableTracklets := availableTracklets s
                  @ filter (\<lambda>t. first_frame t \<le>s frame_index s \<and> frame_index s \<le>s lastFrame t)
                      (tracklets (dataset s))\<rparr>)"
    by (rule loadAvailableTracklets_eq)
  with empty show "loadAvailableTracklets s =
        Inr (s\<lparr>availableTracklets :=
                filter (\<lambda>t. first_frame t \<le>s frame_index s \<and> frame_index s \<le>s lastFrame t)
                  (tracklets (dataset s))\<rparr>)"
    by simp
next
  assume "reachable env r"
  then have "derived_aligned r" by (rule reachable_aligned)
  then show "availableTracklets r =
          filter (\<lambda>t. first_frame t \<le>s frame_index r \<and> frame_index r \<le>s lastFrame t)
            (tracklets (dataset r))"
    by (simp add: derived_aligned_def tracklets_loaded_def)
qed

theorem loadAvailableTracklets_rebuild_witness:
  "availableTracklets (clearAvailableTracklets (example_state\<lparr>frame_index := 2\<rparr>)) = []
   \<and> loadAvailableTracklets (clearAvailableTracklets (example_state\<lparr>frame_index := 2\<rparr>))
       = Inr (example_state\<lparr>frame_index := 2, availableTracklets := [example_tracklet_B]\<rparr>)
   \<and> (case KittiVisualizerQt_new example_environment 0 of
        Inl e \<Rightarrow> False
      | Inr s0 \<Rightarrow>
         availableTracklets s0 = [example_tracklet_A, example_tracklet_B]
         \<and> (case handle example_environment (TrackletSlider 2) s0 of
               Inl e \<Rightarrow> False
             | Inr s1 \<Rightarrow>
                (case handle example_environment (FrameSlider 2) s1 of
                   Inl e \<Rightarrow> False
                 | Inr s2 \<Rightarrow> availableTracklets s2 = [example_tracklet_B])))"
proof -
  let ?s = "clearAvailableTracklets (example_state\<lparr>frame_index := 2\<rparr>)"
  have e: "availableTracklets ?s = []" by (simp add: clearAvailableTracklets_def)
  obtain s0 s1 s2 where run:
    "KittiVisualizerQt_new example_environment 0 = Inr s0"
    "handle example_environment (TrackletSlider 2) s0 = Inr s1"
    "handle example_environment (FrameSlider 2) s1 = Inr s2"
    and r: "reachable example_environment s0" "reachable example_environment s2"
    by (rule example_reachable)
  have f: "frame_index s0 = 0 \<and> dataset s0 = example_dataset
           \<and> frame_index s2 = 2 \<and> dataset s2 = example_dataset"
    using example_session run by simp
  note rebuilt = loadAvailableTracklets_rebuild[of ?s example_environment s0]
  note again = loadAvailableTracklets_rebuild[of ?s example_environment s2]
  have "availableTracklets s0 = [example_tracklet_A, example_tracklet_B]"
    using rebuilt r(1) f
    by (simp add: example_dataset_def example_tracklet_A_def example_tracklet_B_def
        lastFrame_def int_of_size_t_def word_sle_eq)
  moreover have "availableTracklets s2 = [example_tracklet_B]"
    using again r(2) f
    by (simp add: example_dataset_def example_tracklet_A_def example_tracklet_B_def
        lastFrame_def int_of_size_t_def word_sle_eq)
  moreover have "loadAvailableTracklets ?s
       = Inr (example_state\<lparr>frame_index := 2, availableTracklets := [example_tracklet_B]\<rparr>)"
    using rebuilt e
    by (simp add: clearAvailableTracklets_def example_state_def example_dataset_def
        example_tracklet_A_def example_tracklet_B_def lastFrame_def int_of_size_t_def word_sle_eq)
  ultimately show ?thesis using e run by simp
qed

text \<open>Claim C2.  A request for a data set other than the current one leaves
  \<open>dataset_index\<close> at the requested value clamped into \<open>[0, datasetCount - 1]\<close>, a negative
  request giving 0.  The code does not do this for a negative request: in
  \<open>dataset_index >= KittiConfig::availableDatasets.size()\<close> the negative index is converted
  to \<open>size_t\<close> and compares as larger than any size, so the index becomes
  \<open>size() - 1\<close>, and the test \<open>dataset_index < 0\<close> that follows never holds.  With the two
  data sets of the example, constructed at index 0, the request \<open>-1\<close> ends at index 1; a
  request of 7 ends at index 1 as well, as the claim says.\<close>

theorem newDatasetRequested_negative_index:
  "case KittiVisualizerQt_new example_environment 0 of
     Inl e \<Rightarrow> False
   | Inr s \<Rightarrow>
      dataset_index s = 0
      \<and> (case newDatasetRequested example_environment (- 1) s of
            Inl e \<Rightarrow> False
          | Inr s' \<Rightarrow> dataset_index s' = 1)
      \<and> (case newDatasetRequested example_environment 7 s of
            Inl e \<Rightarrow> False
          | Inr s' \<Rightarrow> dataset_index s' = 1)"
  by (simp add: eval_more)

text \<open>Claim C3.  In the state after construction and after every completed data set,
  frame or tracklet request (and after every other completed handler),
  \<open>tracklet_index\<close> is 0 when the Active Tracklet Set is empty (the code has no other value
  for "none"), and otherwise \<open>0 <= tracklet_index < availableTracklets.size()\<close>.\<close>

theorem tracklet_index_in_range:
  assumes "wf_environment env" and "reachable env s"
  shows "if availableTracklets s = [] then tracklet_index s = 0
         else 0 \<le> sint (tracklet_index s)
              \<and> sint (tracklet_index s) < int (length (availableTracklets s))"
proof -
  from assms have inv: "session_invariant s" by (rule reachable_invariant)
  then have v: "tracklet_index_valid s" and l: "loaded s" by (simp_all add: session_invariant_def)
  from l have "length (availableTracklets s) < 2 ^ 31"
    using tracklets_loaded_length[of s] by (simp add: loaded_def)
  with v show ?thesis
    by (auto simp: tracklet_index_valid_def size_t_of_int_less_iff split: if_splits)
qed

theorem tracklet_index_in_range_witness:
  "wf_environment example_environment
   \<and> (case KittiVisualizerQt_new example_environment 0 of
        Inl e \<Rightarrow> False
      | Inr s0 \<Rightarrow>
         (case handle example_environment (TrackletSlider 2) s0 of
            Inl e \<Rightarrow> False
          | Inr s1 \<Rightarrow>
             availableTracklets s1 \<noteq> [] \<and> tracklet_index s1 = 1
             \<and> sint (tracklet_index s1) < int (length (availableTracklets s1))
             \<and> (case handle example_environment (FrameSlider 2) s1 of
                   Inl e \<Rightarrow> False
                 | Inr s2 \<Rightarrow> tracklet_index s2 = 0 \<and> length (availableTracklets s2) = 1)))"
proof -
  obtain s0 s1 s2 where e:
    "KittiVisualizerQt_new example_environment 0 = Inr s0"
    "handle example_environment (TrackletSlider 2) s0 = Inr s1"
    "handle example_environment (FrameSlider 2) s1 = Inr s2"
    and r: "reachable example_environment s1"
    by (rule example_reachable)
  have v: "tracklet_index s1 = 1 \<and> tracklet_index s2 = 0
           \<and> availableTracklets s2 = [example_tracklet_B]"
    using example_session e by simp
  with tracklet_index_in_range[OF example_wf r] e show ?thesis
    by (auto simp: example_wf split: if_splits)
qed

text \<open>Claim C4.  In the state after construction and after every completed handler, in
  particular after every data set or frame transition, \<open>croppedTrackletPointClouds\<close> has
  exactly as many clouds as \<open>availableTracklets\<close> has tracklets.\<close>

theorem cropped_clouds_aligned:
  assumes "reachable env s"
  shows "length (croppedTrackletPointClouds s) = length (availableTracklets s)"
proof -
  from assms have "derived_aligned s" by (rule reachable_aligned)
  then show ?thesis by (simp add: derived_aligned_def)
qed

theorem cropped_clouds_aligned_witness:
  "case KittiVisualizerQt_new example_environment 0 of
     Inl e \<Rightarrow> False
   | Inr s0 \<Rightarrow>
      (case handle example_environment (TrackletSlider 2) s0 of
         Inl e \<Rightarrow> False
       | Inr s1 \<Rightarrow>
          (case handle example_environment (FrameSlider 2) s1 of
             Inl e \<Rightarrow> False
           | Inr s2 \<Rightarrow>
              length (croppedTrackletPointClouds s0) = length (availableTracklets s0)
              \<and> length (croppedTrackletPointClouds s2) = 1
              \<and> length (availableTracklets s2) = 1))"
proof -
  obtain s0 s1 s2 where e:
    "KittiVisualizerQt_new example_environment 0 = Inr s0"
    "handle example_environment (TrackletSlider 2) s0 = Inr s1"
    "handle example_environment (FrameSlider 2) s1 = Inr s2"
    and r: "reachable example_environment s0" "reachable example_environment s2"
    by (rule example_reachable)
  have "availableTracklets s2 = [example_tracklet_B]" using example_session e by simp
  with cropped_clouds_aligned[OF r(1)] cropped_clouds_aligned[OF r(2)] e show ?thesis
    by simp
qed

text \<open>Claim C5.  \<open>showTrackletInCenter\<close>, run with a non-empty Active Tracklet Set, puts
  at the identifier \<open>centered_tracklet\<close> the crop of the frame cloud for the selected
  tracklet \<open>availableTracklets.at(tracklet_index)\<close>, with every point first translated by
  \<open>(-tx, -ty, -(tz + h/2))\<close> and then rotated by \<open>-rz\<close> about the vertical axis, where
  the pose is the selected tracklet's pose at \<open>frame_index - first_frame\<close>; nothing else of
  the state changes.  The two calls of \<open>transformPointCloud\<close> compose to this map: a point
  \<open>(x, y, z)\<close> goes to
  \<open>(cos rz (x - tx) + sin rz (y - ty), cos rz (y - ty) - sin rz (x - tx), z - (tz + h/2))\<close>.
  The centre \<open>(tx, ty, tz + h/2)\<close> of the tracklet's box goes to the origin, and the
  rotation undoes the box's rotation by \<open>rz\<close>.  Coordinates and angles are real numbers
  here.\<close>

theorem centering_transform:
  "centeredCloud cloudOut tracklet tpose =
     map (\<lambda>p. transformPoint Zero (transformRotation tpose)
                (transformPoint (transformOffset tracklet tpose) Identity p)) cloudOut
   \<and> transformPoint Zero (transformRotation tpose)
        (transformPoint (transformOffset tracklet tpose) Identity (KittiPoint x y z i)) =
      KittiPoint (cos (rz tpose) * (x - tx tpose) + sin (rz tpose) * (y - ty tpose))
        (cos (rz tpose) * (y - ty tpose) - sin (rz tpose) * (x - tx tpose))
        (z - (tz tpose + tracklet_h tracklet / 2)) i
   \<and> centeredCloud [KittiPoint (tx tpose) (ty tpose) (tz tpose + tracklet_h tracklet / 2) i]
        tracklet tpose = [KittiPoint 0 0 0 i]
   \<and> rotateVector (transformRotation tpose) (rotateVector (AngleAxisf (rz tpose) UnitZ) v) = v
   \<and> (showTrackletInCenter s = Inr s' \<and> availableTracklets s \<noteq> [] \<longrightarrow>
        (\<exists>selected pose crop.
            vector_at AvailableTracklets (availableTracklets s) (size_t_of_int (tracklet_index s))
              = Inr selected
            \<and> vector_at Poses (poses selected)
                (size_t_of_int (frame_index s - first_frame selected)) = Inr pose
            \<and> getTrackletPointCloud (pointCloud s) selected (frame_index s) = Inr crop
            \<and> s' = s\<lparr>pclVisualizer := (pclVisualizer s)(''centered_tracklet'' \<mapsto>
                     CloudActor
                       (map (\<lambda>p. transformPoint Zero (AngleAxisf (- rz pose) UnitZ)
                                  (transformPoint
                                    (- tx pose, - ty pose, - (tz pose + tracklet_h selected / 2))
                                    Identity p)) crop)
                       (0, 255, 0))\<rparr>))"
proof (intro conjI impI)
  show "centeredCloud cloudOut tracklet tpose =
     map (\<lambda>p. transformPoint Zero (transformRotation tpose)
                (transformPoint (transformOffset tracklet tpose) Identity p)) cloudOut"
    by (simp add: centeredCloud_def transformPointCloud_def)
  show point: "transformPoint Zero (transformRotation tpose)
        (transformPoint (transformOffset tracklet tpose) Identity (KittiPoint x y z i)) =
      KittiPoint (cos (rz tpose) * (x - tx tpose) + sin (rz tpose) * (y - ty tpose))
        (cos (rz tpose) * (y - ty tpose) - sin (rz tpose) * (x - tx tpose))
        (z - (tz tpose + tracklet_h tracklet / 2)) i" for x y z
    by (simp add: transformOffset_def transformRotation_def Zero_def rotateVector_Identity
        rotateVector_UnitZ algebra_simps)
  show "centeredCloud [KittiPoint (tx tpose) (ty tpose) (tz tpose + tracklet_h tracklet / 2) i]
        tracklet tpose = [KittiPoint 0 0 0 i]"
    by (simp add: centeredCloud_def transformPointCloud_def point)
  show "rotateVector (transformRotation tpose) (rotateVector (AngleAxisf (rz tpose) UnitZ) v) = v"
  proof (cases v)
    case (fields a b c)
    let ?c = "cos (rz tpose)" and ?s = "sin (rz tpose)"
    have one: "?c * ?c + ?s * ?s = 1"
      using sin_cos_squared_add2[of "rz tpose"] by (simp add: power2_eq_square)
    have "?c * (?c * a - ?s * b) + ?s * (?s * a + ?c * b) = (?c * ?c + ?s * ?s) * a"
      by (simp only: algebra_simps)
    also have "\<dots> = a" by (simp only: one mult_1)
    finally have 1: "?c * (?c * a - ?s * b) + ?s * (?s * a + ?c * b) = a" .
    have "?c * (?s * a + ?c * b) - ?s * (?c * a - ?s * b) = (?c * ?c + ?s * ?s) * b"
      by (simp only: algebra_simps)
    also have "\<dots> = b" by (simp only: one mult_1)
    finally have 2: "?c * (?s * a + ?c * b) - ?s * (?c * a - ?s * b) = b" .
    show ?thesis
      using fields 1 2 by (simp add: transformRotation_def rotateVector_UnitZ)
  qed
next
  assume "showTrackletInCenter s = Inr s' \<and> availableTracklets s \<noteq> []"
  then show "\<exists>selected pose crop.
            vector_at AvailableTracklets (availableTracklets s) (size_t_of_int (tracklet_index s))
              = Inr selected
            \<and> vector_at Poses (poses selected)
                (size_t_of_int (frame_index s - first_frame selected)) = Inr pose
            \<and> getTrackletPointCloud (pointCloud s) selected (frame_index s) = Inr crop
            \<and> s' = s\<lparr>pclVisualizer := (pclVisualizer s)(''centered_tracklet'' \<mapsto>
                     CloudActor
                       (map (\<lambda>p. transformPoint Zero (AngleAxisf (- rz pose) UnitZ)
                                  (transformPoint
                                    (- tx pose, - ty pose, - (tz pose + tracklet_h selected / 2))
                                    Identity p)) crop)
                       (0, 255, 0))\<rparr>"
    by (auto simp: showTrackletInCenter_def addPointCloud_def centeredCloud_def
          transformPointCloud_def transformOffset_def transformRotation_def comp_def
          split: sum.splits)
qed

theorem centering_transform_witness:
  "case showTrackletInCenter centre_state of
     Inl e \<Rightarrow> False
   | Inr s' \<Rightarrow>
      availableTracklets centre_state \<noteq> []
      \<and> pointCloud centre_state = [KittiPoint 10 2 0 7, KittiPoint 100 0 0 1]
      \<and> s' = centre_state\<lparr>pclVisualizer := (pclVisualizer centre_state)(''centered_tracklet'' \<mapsto>
                CloudActor [KittiPoint 0 0 0 7] (0, 255, 0))\<rparr>"
proof -
  obtain s' where e: "showTrackletInCenter centre_state = Inr s'"
    using centre_state_shown by blast
  have ne: "availableTracklets centre_state \<noteq> []"
    by (simp add: centre_state_def example_state_def)
  have pc: "pointCloud centre_state = [KittiPoint 10 2 0 7, KittiPoint 100 0 0 1]"
    by (simp add: centre_state_def)
  from centering_transform[of _ _ _ _ _ _ _ _ centre_state s'] e ne
  obtain selected pose crop where
    sel: "vector_at AvailableTracklets (availableTracklets centre_state)
            (size_t_of_int (tracklet_index centre_state)) = Inr selected"
    and po: "vector_at Poses (poses selected)
            (size_t_of_int (frame_index centre_state - first_frame selected)) = Inr pose"
    and cr: "getTrackletPointCloud (pointCloud centre_state) selected (frame_index centre_state)
            = Inr crop"
    and s': "s' = centre_state\<lparr>pclVisualizer := (pclVisualizer centre_state)(''centered_tracklet'' \<mapsto>
                     CloudActor
                       (map (\<lambda>p. transformPoint Zero (AngleAxisf (- rz pose) UnitZ)
                                  (transformPoint
                                    (- tx pose, - ty pose, - (tz pose + tracklet_h selected / 2))
                                    Identity p)) crop)
                       (0, 255, 0))\<rparr>"
    by blast
  from sel have selected: "selected = example_tracklet_A"
    by (simp add: centre_state_def example_state_def vector_at_def size_t_of_int_def)
  from po have pose: "pose = example_pose"
    by (simp add: selected centre_state_def example_state_def vector_at_def size_t_of_int_def
        example_tracklet_A_def)
  from cr have crop: "crop = [KittiPoint 10 2 0 7]"
    by (simp add: selected centre_state_def example_state_def getTrackletPointCloud_def
        vector_at_def size_t_of_int_def example_tracklet_A_def insideWorldBox_def
        example_pose_def rotateVector_UnitZ)
  have "s' = centre_state\<lparr>pclVisualizer := (pclVisualizer centre_state)(''centered_tracklet'' \<mapsto>
                CloudActor [KittiPoint 0 0 0 7] (0, 255, 0))\<rparr>"
    by (subst s') (simp add: selected pose crop example_tracklet_A_def example_pose_def Zero_def
        rotateVector_UnitZ rotateVector_Identity)
  with e ne pc show ?thesis by simp
qed

text \<open>Claim C6.  For every position \<open>i\<close> of the Active Tracklet Set the expressions
  \<open>"tracklet_box_" + i\<close> and \<open>"cropped_tracklet_" + i\<close> give a well-defined identifier,
  distinct for distinct positions, the same when showing and when hiding.  The code does
  not do this: the expression adds \<open>i\<close> to the address of the literal, so position 1 has
  the identifier \<open>racklet_box_\<close>, and from position 14 on (18 for the cropped clouds) the
  address lies beyond the literal and reading it is undefined.  With fifteen available
  tracklets neither \<open>showTrackletBoxes\<close> nor \<open>hideTrackletBoxes\<close> has a defined result.\<close>

theorem showTrackletBoxes_fifteenth_identifier:
  "literal_plus ''tracklet_box_'' 1 = Inr ''racklet_box_''
   \<and> literal_plus ''tracklet_box_'' 14 = Inl UndefinedBehaviour
   \<and> literal_plus ''cropped_tracklet_'' 18 = Inl UndefinedBehaviour
   \<and> length (availableTracklets crowded_state) = 15
   \<and> showTrackletBoxes crowded_state = Inl UndefinedBehaviour
   \<and> hideTrackletBoxes crowded_state = Inl UndefinedBehaviour"
  by (simp add: crowded_state_def example_state_def showTrackletBoxes_def showTrackletBoxes_body_def
      hideTrackletBoxes_def hideTrackletBoxes_body_def
      literal_plus_def vector_at_def size_t_of_int_def example_tracklet_B_def for_loop_step
      for_loop_done)

text \<open>Claim C7.  A request for the data set, frame or tracklet index that is already
  current returns at once: the handler's result is the state it was given, with the three
  indices, the derived sequences, the labels and the scene as they were.\<close>

theorem current_index_request_is_noop:
  "newDatasetRequested env (dataset_index s) s = Inr s
   \<and> newFrameRequested env (frame_index s) s = Inr s
   \<and> newTrackletRequested (tracklet_index s) s = Inr s"
  by (simp add: newDatasetRequested_def newFrameRequested_def newTrackletRequested_def)

text \<open>Claim C8.  A layer toggle changes its own visibility flag and the scene, and
  nothing else: the three indices, the data set, the frame cloud, the two derived
  sequences, the labels and the other three flags are as before.  For the frame cloud
  the scene changes at the identifier \<open>point_cloud\<close> only, for the centred selection at
  \<open>centered_tracklet\<close> only.  For the bounding boxes the scene changes only at the
  identifiers \<open>"tracklet_box_" + i\<close> of the positions \<open>i\<close> of the Active Tracklet Set:
  switched on, each holds the box of the tracklet at \<open>i\<close> at its pose for the current
  frame; switched off, each is absent.  For the cropped clouds the scene changes only at
  the identifiers \<open>"cropped_tracklet_" + i\<close>: switched on, each holds the stored cloud
  \<open>croppedTrackletPointClouds.at(i)\<close> in the colour of the tracklet at \<open>i\<close>; switched off,
  each is absent.  Any sequence of frame requests that completes leaves the four flags
  as they were.\<close>

theorem layer_toggles_touch_only_their_layer:
  "(showFramePointCloudToggled value s = Inr s' \<longrightarrow>
        s' = s\<lparr>pointCloudVisible := value, pclVisualizer := pclVisualizer s'\<rparr>
        \<and> (pclVisualizer s')(''point_cloud'' := None) = (pclVisualizer s)(''point_cloud'' := None))
   \<and> (showTrackletBoundingBoxesToggled value s = Inr s' \<longrightarrow>
        s' = s\<lparr>trackletBoundingBoxesVisible := value, pclVisualizer := pclVisualizer s'\<rparr>
        \<and> pclVisualizer s' |` (- viewer_ids ''tracklet_box_'' (length (availableTracklets s)))
            = pclVisualizer s |` (- viewer_ids ''tracklet_box_'' (length (availableTracklets s)))
        \<and> (\<forall>i<length (availableTracklets s).
              pclVisualizer s' (drop i ''tracklet_box_'') =
                (if value
                 then Some (let tracklet = availableTracklets s ! i;
                                tpose = poses tracklet
                                          ! size_t_of_int (frame_index s - first_frame tracklet)
                            in CubeActor (tx tpose, ty tpose, tz tpose + tracklet_h tracklet / 2)
                                 (AngleAxisf (rz tpose) UnitZ) (tracklet_l tracklet)
                                 (tracklet_w tracklet) (tracklet_h tracklet))
                 else None)))
   \<and> (showTrackletPointCloudsToggled env value s = Inr s' \<longrightarrow>
        s' = s\<lparr>trackletPointsVisible := value, pclVisualizer := pclVisualizer s'\<rparr>
        \<and> pclVisualizer s' |` (- viewer_ids ''cropped_tracklet_'' (length (availableTracklets s)))
            = pclVisualizer s |` (- viewer_ids ''cropped_tracklet_'' (length (availableTracklets s)))
        \<and> (\<forall>i<length (availableTracklets s).
              pclVisualizer s' (drop i ''cropped_tracklet_'') =
                (if value
                 then Some (CloudActor (croppedTrackletPointClouds s ! i)
                              (getTrackletColor env (availableTracklets s ! i)))
                 else None)))
   \<and> (showTrackletInCenterToggled value s = Inr s' \<longrightarrow>
        s' = s\<lparr>trackletInCenterVisible := value, pclVisualizer := pclVisualizer s'\<rparr>
        \<and> (pclVisualizer s')(''centered_tracklet'' := None)
            = (pclVisualizer s)(''centered_tracklet'' := None))
   \<and> (run_steps (map (newFrameRequested env) values) s = Inr s' \<longrightarrow>
        pointCloudVisible s' = pointCloudVisible s
        \<and> trackletBoundingBoxesVisible s' = trackletBoundingBoxesVisible s
        \<and> trackletPointsVisible s' = trackletPointsVisible s
        \<and> trackletInCenterVisible s' = trackletInCenterVisible s)"
proof (intro conjI impI)
  assume "showFramePointCloudToggled value s = Inr s'"
  then show "s' = s\<lparr>pointCloudVisible := value, pclVisualizer := pclVisualizer s'\<rparr>"
    and "(pclVisualizer s')(''point_cloud'' := None) = (pclVisualizer s)(''point_cloud'' := None)"
    by (auto simp: showFramePointCloudToggled_def showPointCloud_def hidePointCloud_def
          addPointCloud_def removePointCloud_def Let_def split: if_splits)
next
  let ?s1 = "s\<lparr>trackletBoundingBoxesVisible := value\<rparr>"
  assume toggled: "showTrackletBoundingBoxesToggled value s = Inr s'"
  then show "s' = s\<lparr>trackletBoundingBoxesVisible := value, pclVisualizer := pclVisualizer s'\<rparr>"
    by (auto simp: showTrackletBoundingBoxesToggled_def Let_def split: if_splits
          dest!: showTrackletBoxes_Inr hideTrackletBoxes_Inr)
  from toggled have run: "(if value then showTrackletBoxes ?s1 else hideTrackletBoxes ?s1) = Inr s'"
    by (simp add: showTrackletBoundingBoxesToggled_def Let_def)
  show "pclVisualizer s' |` (- viewer_ids ''tracklet_box_'' (length (availableTracklets s)))
          = pclVisualizer s |` (- viewer_ids ''tracklet_box_'' (length (availableTracklets s)))"
    using run showTrackletBoxes_scene[of ?s1 s'] hideTrackletBoxes_scene[of ?s1 s']
    by (cases "value") simp_all
  show "\<forall>i<length (availableTracklets s).
              pclVisualizer s' (drop i ''tracklet_box_'') =
                (if value
                 then Some (let tracklet = availableTracklets s ! i;
                                tpose = poses tracklet
                                          ! size_t_of_int (frame_index s - first_frame tracklet)
                            in CubeActor (tx tpose, ty tpose, tz tpose + tracklet_h tracklet / 2)
                                 (AngleAxisf (rz tpose) UnitZ) (tracklet_l tracklet)
                                 (tracklet_w tracklet) (tracklet_h tracklet))
                 else None)"
    using run showTrackletBoxes_scene[of ?s1 s'] hideTrackletBoxes_scene[of ?s1 s']
    by (cases "value") simp_all
next
  let ?s1 = "s\<lparr>trackletPointsVisible := value\<rparr>"
  assume toggled: "showTrackletPointCloudsToggled env value s = Inr s'"
  then show "s' = s\<lparr>trackletPointsVisible := value, pclVisualizer := pclVisualizer s'\<rparr>"
    by (auto simp: showTrackletPointCloudsToggled_def Let_def split: if_splits
          dest!: showTrackletPoints_Inr hideTrackletPoints_Inr)
  from toggled
  have run: "(if value then showTrackletPoints env ?s1 else hideTrackletPoints ?s1) = Inr s'"
    by (simp add: showTrackletPointCloudsToggled_def Let_def)
  show "pclVisualizer s' |` (- viewer_ids ''cropped_tracklet_'' (length (availableTracklets s)))
          = pclVisualizer s |` (- viewer_ids ''cropped_tracklet_'' (length (availableTracklets s)))"
    using run showTrackletPoints_scene[of env ?s1 s'] hideTrackletPoints_scene[of ?s1 s']
    by (cases "value") simp_all
  show "\<forall>i<length (availableTracklets s).
              pclVisualizer s' (drop i ''cropped_tracklet_'') =
                (if value
                 then Some (CloudActor (croppedTrackletPointClouds s ! i)
                              (getTrackletColor env (availableTracklets s ! i)))
                 else None)"
    using run showTrackletPoints_scene[of env ?s1 s'] hideTrackletPoints_scene[of ?s1 s']
    by (cases "value") simp_all
next
  assume toggled: "showTrackletInCenterToggled value s = Inr s'"
  then show "s' = s\<lparr>trackletInCenterVisible := value, pclVisualizer := pclVisualizer s'\<rparr>"
    by (auto simp: showTrackletInCenterToggled_def hideTrackletInCenter_def Let_def split: if_splits
          dest!: showTrackletInCenter_Inr)
  from toggled
  show "(pclVisualizer s')(''centered_tracklet'' := None)
          = (pclVisualizer s)(''centered_tracklet'' := None)"
    by (auto simp: showTrackletInCenterToggled_def hideTrackletInCenter_def showTrackletInCenter_def
          addPointCloud_def removeShape_def Let_def split: if_splits sum.splits)
next
  assume "run_steps (map (newFrameRequested env) values) s = Inr s'"
  then have "flags_of s' = flags_of s"
    by (rule keepsD[OF keeps_flags_frame_requests])
  then show "pointCloudVisible s' = pointCloudVisible s"
    "trackletBoundingBoxesVisible s' = trackletBoundingBoxesVisible s"
    "trackletPointsVisible s' = trackletPointsVisible s"
    "trackletInCenterVisible s' = trackletInCenterVisible s"
    by (simp_all add: flags_of_def)
qed

theorem layer_toggles_touch_only_their_layer_witness:
  "case showTrackletBoundingBoxesToggled True example_state of
     Inl e \<Rightarrow> False
   | Inr s1 \<Rightarrow>
      s1 = example_state\<lparr>trackletBoundingBoxesVisible := True, pclVisualizer := pclVisualizer s1\<rparr>
      \<and> pclVisualizer s1 ''point_cloud'' = None
      \<and> pclVisualizer s1 ''racklet_box_'' =
          Some (CubeActor (10, 2, 1 / 2) (AngleAxisf 0 UnitZ) 5 2 3)
      \<and> (case showTrackletPointCloudsToggled example_environment False s1 of
            Inl e \<Rightarrow> False
          | Inr s2 \<Rightarrow>
             s2 = s1\<lparr>trackletPointsVisible := False, pclVisualizer := pclVisualizer s2\<rparr>
             \<and> pclVisualizer s2 ''racklet_box_'' = pclVisualizer s1 ''racklet_box_''
             \<and> pclVisualizer s2 ''cropped_tracklet_'' = None
             \<and> (case run_steps (map (newFrameRequested example_environment) [1, 2, 0]) s2 of
                   Inl e \<Rightarrow> False
                 | Inr s3 \<Rightarrow>
                    trackletBoundingBoxesVisible s3 \<and> \<not> trackletPointsVisible s3
                    \<and> \<not> pointCloudVisible s3 \<and> \<not> trackletInCenterVisible s3))"
proof -
  obtain s1 s2 s3 where e:
    "showTrackletBoundingBoxesToggled True example_state = Inr s1"
    "showTrackletPointCloudsToggled example_environment False s1 = Inr s2"
    "run_steps (map (newFrameRequested example_environment) [1, 2, 0]) s2 = Inr s3"
    using example_toggles by (auto split: sum.splits)
  note t1 = layer_toggles_touch_only_their_layer[of True example_state s1 example_environment]
  note t2 = layer_toggles_touch_only_their_layer[of False s1 s2 example_environment]
  note t3 = layer_toggles_touch_only_their_layer[of False s2 s3 example_environment "[1, 2, 0]"]
  have 1: "s1 = example_state\<lparr>trackletBoundingBoxesVisible := True, pclVisualizer := pclVisualizer s1\<rparr>"
    using t1 e(1) by blast
  have 2: "s2 = s1\<lparr>trackletPointsVisible := False, pclVisualizer := pclVisualizer s2\<rparr>"
    using t2 e(2) by blast
  have 3: "pointCloudVisible s3 = pointCloudVisible s2
        \<and> trackletBoundingBoxesVisible s3 = trackletBoundingBoxesVisible s2
        \<and> trackletPointsVisible s3 = trackletPointsVisible s2
        \<and> trackletInCenterVisible s3 = trackletInCenterVisible s2"
    using t3 e(3) by blast
  have n1: "length (availableTracklets s1) = Suc (Suc 0)"
    by (subst 1) (simp add: example_state_def)
  have r1: "pclVisualizer s1 |` (- viewer_ids ''tracklet_box_'' (Suc (Suc 0)))
          = pclVisualizer example_state |` (- viewer_ids ''tracklet_box_'' (Suc (Suc 0)))"
    using t1 e(1) by (simp add: example_state_def)
  have a1: "pclVisualizer s1 ''point_cloud'' = None"
    using fun_cong[OF r1, of "''point_cloud''"]
    by (simp add: restrict_map_def viewer_ids_Suc viewer_ids_0 example_state_def)
  have "\<forall>i<Suc (Suc 0). pclVisualizer s1 (drop i ''tracklet_box_'') =
          Some (let tracklet = availableTracklets example_state ! i;
                    tpose = poses tracklet
                              ! size_t_of_int (frame_index example_state - first_frame tracklet)
                in CubeActor (tx tpose, ty tpose, tz tpose + tracklet_h tracklet / 2)
                     (AngleAxisf (rz tpose) UnitZ) (tracklet_l tracklet)
                     (tracklet_w tracklet) (tracklet_h tracklet))"
    using t1 e(1) by (simp add: example_state_def)
  then have "pclVisualizer s1 (drop (Suc 0) ''tracklet_box_'') =
          Some (let tracklet = availableTracklets example_state ! Suc 0;
                    tpose = poses tracklet
                              ! size_t_of_int (frame_index example_state - first_frame tracklet)
                in CubeActor (tx tpose, ty tpose, tz tpose + tracklet_h tracklet / 2)
                     (AngleAxisf (rz tpose) UnitZ) (tracklet_l tracklet)
                     (tracklet_w tracklet) (tracklet_h tracklet))"
    by blast
  then have b1: "pclVisualizer s1 ''racklet_box_'' =
          Some (CubeActor (10, 2, 1 / 2) (AngleAxisf 0 UnitZ) 5 2 3)"
    by (simp add: example_state_def example_tracklet_B_def example_pose_def size_t_of_int_def
        Let_def)
  have r2: "pclVisualizer s2 |` (- viewer_ids ''cropped_tracklet_'' (Suc (Suc 0)))
          = pclVisualizer s1 |` (- viewer_ids ''cropped_tracklet_'' (Suc (Suc 0)))"
    using t2 e(2) n1 by simp
  have a2: "pclVisualizer s2 ''racklet_box_'' = pclVisualizer s1 ''racklet_box_''"
    using fun_cong[OF r2, of "''racklet_box_''"]
    by (simp add: restrict_map_def viewer_ids_Suc viewer_ids_0)
  have "\<forall>i<Suc (Suc 0). pclVisualizer s2 (drop i ''cropped_tracklet_'') = None"
    using t2 e(2) n1 by simp
  then have "pclVisualizer s2 (drop 0 ''cropped_tracklet_'') = None"
    by blast
  then have b2: "pclVisualizer s2 ''cropped_tracklet_'' = None"
    by simp
  have f1: "trackletBoundingBoxesVisible s1 \<and> \<not> pointCloudVisible s1 \<and> \<not> trackletInCenterVisible s1"
    by (subst 1, simp add: example_state_def)+
  have f2: "trackletBoundingBoxesVisible s2 \<and> \<not> trackletPointsVisible s2
            \<and> \<not> pointCloudVisible s2 \<and> \<not> trackletInCenterVisible s2"
    using f1 by (subst 2, simp)+
  from e 1 2 3 f2 a1 b1 a2 b2 show ?thesis by simp
qed

text \<open>Claim C9.  In every state of a session on well-formed data, each available
  tracklet \<open>t\<close> is active at the current frame, so
  \<open>0 <= frame_index - t.first_frame < t.poses.size()\<close>; and the pose lookups
  \<open>poses.at(frame_index - first_frame)\<close> never throw: neither \<open>showTrackletBoxes\<close> nor
  \<open>showTrackletInCenter\<close> run on such a state, nor any handler run from it, nor the
  constructor, ends with \<open>out_of_range\<close> from \<open>poses\<close>.\<close>

theorem pose_lookup_in_range:
  assumes "wf_environment env" and "reachable env s"
  shows "list_all (\<lambda>t. first_frame t \<le>s frame_index s \<and> frame_index s \<le>s lastFrame t
                     \<and> 0 \<le> sint (frame_index s - first_frame t)
                     \<and> sint (frame_index s - first_frame t) < int (length (poses t)))
           (availableTracklets s)
         \<and> showTrackletBoxes s \<noteq> Inl (out_of_range Poses)
         \<and> showTrackletInCenter s \<noteq> Inl (out_of_range Poses)
         \<and> handle env ev s \<noteq> Inl (out_of_range Poses)
         \<and> KittiVisualizerQt_new env index \<noteq> Inl (out_of_range Poses)"
proof (intro conjI)
  from assms have inv: "session_invariant s" by (rule reachable_invariant)
  then have wf: "wf_dataset (dataset s)" and ld: "tracklets_loaded s"
    by (simp_all add: session_invariant_def loaded_def)
  have pr: "poses_in_range s" using inv by (rule session_invariant_poses)
  show "list_all (\<lambda>t. first_frame t \<le>s frame_index s \<and> frame_index s \<le>s lastFrame t
                     \<and> 0 \<le> sint (frame_index s - first_frame t)
                     \<and> sint (frame_index s - first_frame t) < int (length (poses t)))
           (availableTracklets s)"
    unfolding list_all_iff
  proof
    fix t assume t: "t \<in> set (availableTracklets s)"
    with ld have m: "t \<in> set (tracklets (dataset s))"
      and a: "first_frame t \<le>s frame_index s" "frame_index s \<le>s lastFrame t"
      by (simp_all add: tracklets_loaded_def)
    from m wf have w: "wf_tracklet t" by (simp add: wf_dataset_def list_all_iff)
    then have n: "length (poses t) < 2 ^ 31" by (simp add: wf_tracklet_def)
    have "size_t_of_int (frame_index s - first_frame t) < length (poses t)"
      using w a by (rule pose_in_range)
    with n have "0 \<le> sint (frame_index s - first_frame t)
        \<and> sint (frame_index s - first_frame t) < int (length (poses t))"
      by (simp add: size_t_of_int_less_iff)
    with a show "first_frame t \<le>s frame_index s \<and> frame_index s \<le>s lastFrame t
        \<and> 0 \<le> sint (frame_index s - first_frame t)
        \<and> sint (frame_index s - first_frame t) < int (length (poses t))"
      by simp
  qed
  show "showTrackletBoxes s \<noteq> Inl (out_of_range Poses)"
    using showTrackletBoxes_Inl[OF _ pr] by fastforce
  show "showTrackletInCenter s \<noteq> Inl (out_of_range Poses)"
    using showTrackletInCenter_Inl[OF _ pr] inv by (auto simp: session_invariant_def)
  show "handle env ev s \<noteq> Inl (out_of_range Poses)"
    using reachable_handle_benign[OF assms] benign_not_out_of_range by blast
  show "KittiVisualizerQt_new env index \<noteq> Inl (out_of_range Poses)"
    using KittiVisualizerQt_new_errors[OF assms(1)] by fastforce
qed

theorem pose_lookup_in_range_witness:
  "wf_environment example_environment
   \<and> (case KittiVisualizerQt_new example_environment 0 of
        Inl e \<Rightarrow> False
      | Inr s0 \<Rightarrow>
         (case handle example_environment (TrackletSlider 2) s0 of
            Inl e \<Rightarrow> False
          | Inr s1 \<Rightarrow>
             (case handle example_environment (FrameSlider 2) s1 of
                Inl e \<Rightarrow> False
              | Inr s2 \<Rightarrow>
                 availableTracklets s2 = [example_tracklet_B]
                 \<and> sint (frame_index s2 - first_frame example_tracklet_B) < 3
                 \<and> showTrackletBoxes s2 \<noteq> Inl (out_of_range Poses)
                 \<and> showTrackletInCenter s2 \<noteq> Inl (out_of_range Poses)
                 \<and> handle example_environment (KeyboardEvent 0 True ''Left'') s2
                     \<noteq> Inl (out_of_range Poses))))"
proof -
  obtain s0 s1 s2 where e:
    "KittiVisualizerQt_new example_environment 0 = Inr s0"
    "handle example_environment (TrackletSlider 2) s0 = Inr s1"
    "handle example_environment (FrameSlider 2) s1 = Inr s2"
    and r: "reachable example_environment s2"
    by (rule example_reachable)
  have a: "availableTracklets s2 = [example_tracklet_B]" using example_session e by simp
  have "length (poses example_tracklet_B) = 3" by (simp add: example_tracklet_B_def)
  with pose_lookup_in_range[OF example_wf r, of "KeyboardEvent 0 True ''Left''" 0] a e
  show ?thesis by (simp add: example_wf)
qed

text \<open>Claim C10.  In every state of a session on well-formed data with a non-empty Active
  Tracklet Set, \<open>tracklet_index\<close> is a position of both \<open>availableTracklets\<close> and
  \<open>croppedTrackletPointClouds\<close>, and \<open>updateTrackletLabel\<close> returns; with an empty set it
  writes \<open>Tracklet: 0 of 0\<close> and reads neither vector.  No handler and not the constructor
  ends with \<open>out_of_range\<close> from one of the two vectors.\<close>

theorem updateTrackletLabel_in_bounds:
  assumes "wf_environment env" and "reachable env s"
  shows "(availableTracklets s \<noteq> [] \<longrightarrow>
            size_t_of_int (tracklet_index s) < length (availableTracklets s)
            \<and> size_t_of_int (tracklet_index s) < length (croppedTrackletPointClouds s))
         \<and> (\<exists>s'. updateTrackletLabel s = Inr s')
         \<and> (availableTracklets s = [] \<longrightarrow>
              updateTrackletLabel s = Inr (s\<lparr>label_tracklet := ''Tracklet: 0 of 0'' @ endl\<rparr>))
         \<and> handle env ev s \<noteq> Inl (out_of_range AvailableTracklets)
         \<and> handle env ev s \<noteq> Inl (out_of_range CroppedTrackletPointClouds)
         \<and> KittiVisualizerQt_new env index \<noteq> Inl (out_of_range AvailableTracklets)
         \<and> KittiVisualizerQt_new env index \<noteq> Inl (out_of_range CroppedTrackletPointClouds)"
proof (intro conjI impI)
  from assms have inv: "session_invariant s" by (rule reachable_invariant)
  then have v: "tracklet_index_valid s"
    and l: "length (croppedTrackletPointClouds s) = length (availableTracklets s)"
    by (simp_all add: session_invariant_def loaded_def)
  show "size_t_of_int (tracklet_index s) < length (availableTracklets s)"
    if "availableTracklets s \<noteq> []"
    using v that by (simp add: tracklet_index_valid_def)
  then show "size_t_of_int (tracklet_index s) < length (croppedTrackletPointClouds s)"
    if "availableTracklets s \<noteq> []"
    using l that by simp
  show "\<exists>s'. updateTrackletLabel s = Inr s'"
    using updateTrackletLabel_Inl[OF _ v l] by (cases "updateTrackletLabel s") auto
  show "updateTrackletLabel s = Inr (s\<lparr>label_tracklet := ''Tracklet: 0 of 0'' @ endl\<rparr>)"
    if "availableTracklets s = []"
    using that by (simp add: updateTrackletLabel_def)
  show "handle env ev s \<noteq> Inl (out_of_range AvailableTracklets)"
    "handle env ev s \<noteq> Inl (out_of_range CroppedTrackletPointClouds)"
    using reachable_handle_benign[OF assms] benign_not_out_of_range by blast+
  show "KittiVisualizerQt_new env index \<noteq> Inl (out_of_range AvailableTracklets)"
    "KittiVisualizerQt_new env index \<noteq> Inl (out_of_range CroppedTrackletPointClouds)"
    using KittiVisualizerQt_new_errors[OF assms(1)] by fastforce+
qed

theorem updateTrackletLabel_in_bounds_witness:
  "wf_environment example_environment
   \<and> (case KittiVisualizerQt_new example_environment 0 of
        Inl e \<Rightarrow> False
      | Inr s0 \<Rightarrow>
         (case handle example_environment (TrackletSlider 2) s0 of
            Inl e \<Rightarrow> False
          | Inr s1 \<Rightarrow>
             availableTracklets s1 \<noteq> []
             \<and> size_t_of_int (tracklet_index s1) < length (availableTracklets s1)
             \<and> size_t_of_int (tracklet_index s1) < length (croppedTrackletPointClouds s1)
             \<and> (\<exists>s'. updateTrackletLabel s1 = Inr s')
             \<and> handle example_environment (FrameSlider 2) s1
                 \<noteq> Inl (out_of_range AvailableTracklets)))"
proof -
  obtain s0 s1 s2 where e:
    "KittiVisualizerQt_new example_environment 0 = Inr s0"
    "handle example_environment (TrackletSlider 2) s0 = Inr s1"
    and r: "reachable example_environment s1"
    by (rule example_reachable)
  have "tracklet_index s1 = 1" using example_session e by simp
  moreover have "availableTracklets s1 \<noteq> []"
  proof
    assume "availableTracklets s1 = []"
    then have "tracklet_index s1 = 0"
      using reachable_invariant[OF example_wf r]
      by (simp add: session_invariant_def tracklet_index_valid_def)
    with \<open>tracklet_index s1 = 1\<close> show False by simp
  qed
  ultimately show ?thesis
    using updateTrackletLabel_in_bounds[OF example_wf r, of "FrameSlider 2" 0] e
    by (simp add: example_wf)
qed

end
